theory Spec2Isabelle
  imports Complex_Main
begin

section \<open>Python values and NumPy arrays\<close>

text \<open>
  The exceptions the two modules can raise, by their Python class. The named classes of the
  written specification (LabelAlignmentError, InvalidSubjectError, ...) do not exist in the
  code; a failure is whichever built-in exception the statement raises.
\<close>

datatype py_error =
    ValueError
  | IndexError
  | FileNotFoundError
  | OSError
  | BadZipFile
  | ConnectionError

text \<open>
  A two-dimensional array carries its shape, as an \<open>ndarray\<close> does also when one of the
  two dimensions is zero. Sample values are only ever copied, never computed with, so they are
  idealised as reals (every \<open>int16\<close> sample and every label is exactly a \<open>float64\<close>).
\<close>

record ndarray2 =
  shape0 :: nat
  shape1 :: nat
  rows :: "real list list"

definition wf_array :: "ndarray2 \<Rightarrow> bool" where
  "wf_array a \<longleftrightarrow> length (rows a) = shape0 a \<and> list_all (\<lambda>r. length r = shape1 a) (rows a)"

definition np_zeros :: "nat \<Rightarrow> nat \<Rightarrow> ndarray2" where
  "np_zeros r c = \<lparr>shape0 = r, shape1 = c, rows = replicate r (replicate c 0)\<rparr>"

definition np_T :: "ndarray2 \<Rightarrow> ndarray2" where
  "np_T a = \<lparr>shape0 = shape1 a, shape1 = shape0 a,
             rows = map (\<lambda>j. map (\<lambda>r. r ! j) (rows a)) [0..<shape1 a]\<rparr>"

text \<open>\<open>np.concatenate([a, b], axis=0)\<close>: the column counts must agree.\<close>

definition np_concatenate0 :: "ndarray2 \<Rightarrow> ndarray2 \<Rightarrow> py_error + ndarray2" where
  "np_concatenate0 a b =
     (if shape1 a \<noteq> shape1 b then Inl ValueError
      else Inr \<lparr>shape0 = shape0 a + shape0 b, shape1 = shape1 a, rows = rows a @ rows b\<rparr>)"

text \<open>\<open>np.min\<close> of an array with no element raises ValueError.\<close>

definition np_min :: "int list \<Rightarrow> py_error + int" where
  "np_min xs = (case xs of [] \<Rightarrow> Inl ValueError | x # ys \<Rightarrow> Inr (fold min ys x))"

text \<open>
  An integer index \<open>i\<close> into an axis of length \<open>n\<close>: NumPy accepts \<open>-n \<le> i < n\<close>, a negative
  index counting from the end, and raises IndexError outside that range.
\<close>

definition np_index :: "nat \<Rightarrow> int \<Rightarrow> py_error + nat" where
  "np_index n i =
     (if 0 \<le> i \<and> i < int n then Inr (nat i)
      else if - int n \<le> i \<and> i < 0 then Inr (nat (i + int n))
      else Inl IndexError)"

text \<open>\<open>a[0, i]\<close> on an array of one row, given as that row.\<close>

definition np_getitem :: "'a list \<Rightarrow> int \<Rightarrow> py_error + 'a" where
  "np_getitem xs i = (case np_index (length xs) i of Inl e \<Rightarrow> Inl e | Inr k \<Rightarrow> Inr (xs ! k))"

text \<open>
  Broadcasting a row of \<open>l\<close> values against \<open>k\<close> index positions: the lengths agree, or the
  row has one value, which is repeated; anything else raises ValueError.
\<close>

definition np_broadcast :: "nat \<Rightarrow> 'a list \<Rightarrow> py_error + 'a list" where
  "np_broadcast k vs =
     (if length vs = k then Inr vs
      else if length vs = 1 then Inr (replicate k (hd vs))
      else Inl ValueError)"

text \<open>
  The index-array assignment \<open>row[idx] = vals\<close> writes in index order, so a position named
  twice keeps the later value.
\<close>

fun assign_all :: "real list \<Rightarrow> (nat \<times> real) list \<Rightarrow> real list" where
  "assign_all row [] = row"
| "assign_all row ((k, v) # kvs) = assign_all (row[k := v]) kvs"

fun np_indices :: "nat \<Rightarrow> int list \<Rightarrow> py_error + nat list" where
  "np_indices n [] = Inr []"
| "np_indices n (i # is) =
     (case np_index n i of
        Inl e \<Rightarrow> Inl e
      | Inr k \<Rightarrow> (case np_indices n is of Inl e \<Rightarrow> Inl e | Inr ks \<Rightarrow> Inr (k # ks)))"

text \<open>
  \<open>a[:, idx] = vals\<close> with \<open>idx\<close> and \<open>vals\<close> arrays of one row each: the values are broadcast,
  every index is checked against the column count, then every row of \<open>a\<close> is assigned.
\<close>

definition np_setitem_cols :: "ndarray2 \<Rightarrow> int list \<Rightarrow> real list \<Rightarrow> py_error + ndarray2" where
  "np_setitem_cols a idx vals =
     (case np_broadcast (length idx) vals of
        Inl e \<Rightarrow> Inl e
      | Inr vs \<Rightarrow>
          (case np_indices (shape1 a) idx of
             Inl e \<Rightarrow> Inl e
           | Inr ks \<Rightarrow> Inr (a\<lparr>rows := map (\<lambda>r. assign_all r (zip ks vs)) (rows a)\<rparr>)))"

text \<open>
  A Python slice bound \<open>p\<close> on an axis of length \<open>n\<close>: a negative bound counts from the end,
  and the result is clamped to \<open>[0, n]\<close>; slicing never raises.
\<close>

definition slice_bound :: "nat \<Rightarrow> int \<Rightarrow> nat" where
  "slice_bound n p = (if p < 0 then nat (max 0 (p + int n)) else min (nat p) n)"

text \<open>\<open>a[:, :p]\<close> and \<open>a[:, p:]\<close>.\<close>

definition cols_before :: "ndarray2 \<Rightarrow> int \<Rightarrow> ndarray2" where
  "cols_before a p =
     (let s = slice_bound (shape1 a) p
      in \<lparr>shape0 = shape0 a, shape1 = s, rows = map (take s) (rows a)\<rparr>)"

definition cols_from :: "ndarray2 \<Rightarrow> int \<Rightarrow> ndarray2" where
  "cols_from a p =
     (let s = slice_bound (shape1 a) p
      in \<lparr>shape0 = shape0 a, shape1 = shape1 a - s, rows = map (drop s) (rows a)\<rparr>)"

section \<open>The signal container\<close>

text \<open>
  \<open>mne.create_info\<close> and \<open>mne.io.RawArray\<close> belong to the MNE library. Of their behaviour
  the model keeps the argument checks that decide whether the assembly returns: one channel
  type per channel name, a positive sampling rate, one data row per channel.
\<close>

record info =
  ch_names :: "string list"
  ch_types :: "string list"
  sfreq :: real

record annotation =
  onset :: real
  duration :: real
  description :: string

record raw =
  raw_info :: info
  raw_data :: ndarray2
  annotations :: "annotation list"

definition create_info :: "string list \<Rightarrow> string list \<Rightarrow> real \<Rightarrow> py_error + info" where
  "create_info names types fs =
     (if fs \<le> 0 then Inl ValueError
      else if length types \<noteq> length names then Inl ValueError
      else Inr \<lparr>ch_names = names, ch_types = types, sfreq = fs\<rparr>)"

definition RawArray :: "ndarray2 \<Rightarrow> info \<Rightarrow> py_error + raw" where
  "RawArray d i =
     (if shape0 d \<noteq> length (ch_names i) then Inl ValueError
      else Inr \<lparr>raw_info = i, raw_data = d, annotations = []\<rparr>)"

text \<open>\<open>'{}'.format(n)\<close> for a natural number: its decimal digits.\<close>

fun str_nat :: "nat \<Rightarrow> string" where
  "str_nat n = (if n < 10 then [''0123456789'' ! n] else str_nat (n div 10) @ [''0123456789'' ! (n mod 10)])"

declare str_nat.simps [simp del]

section \<open>Dataset4a: assembling one subject\<close>

text \<open>
  What \<open>loadmat\<close> returns for the two files of a subject, reduced to the fields that
  \<open>_get_single_subject_data\<close> reads: \<open>cnt\<close> (samples by channels), the channel names and the
  sampling rate of \<open>nfo\<close>, the cue positions of \<open>mrk\<close> (an array of one row), and from the
  label file \<open>test_idx\<close> and \<open>true_y\<close> (one row each).
\<close>

record train_mat =
  cnt :: ndarray2
  nfo_clab :: "string list"
  nfo_fs :: real
  mrk_pos :: "int list"

record test_mat =
  test_idx :: "int list"
  true_y :: "real list"

type_synonym session = "string \<rightharpoonup> raw"
type_synonym sessions = "string \<rightharpoonup> session"

text \<open>Lines 148-149: the boundary index and the sample position of the cue it names.\<close>

definition split_sample_position :: "train_mat \<Rightarrow> test_mat \<Rightarrow> py_error + int" where
  "split_sample_position train_data test_data =
     (case np_min (test_idx test_data) of
        Inl e \<Rightarrow> Inl e
      | Inr sep_idx \<Rightarrow> np_getitem (mrk_pos train_data) sep_idx)"

text \<open>Lines 146 and 150: the event row, one entry per sample.\<close>

definition make_raw_event :: "nat \<Rightarrow> int list \<Rightarrow> real list \<Rightarrow> py_error + ndarray2" where
  "make_raw_event n cue_pos labels = np_setitem_cols (np_zeros 1 n) cue_pos labels"

text \<open>Lines 154-155: the two column ranges handed to \<open>RawArray\<close>.\<close>

definition partition_at :: "ndarray2 \<Rightarrow> int \<Rightarrow> ndarray2 \<times> ndarray2" where
  "partition_at d sep_pos = (cols_before d sep_pos, cols_from d sep_pos)"

text \<open>
  Lines 132-163 of \<open>Dataset4a._get_single_subject_data\<close>, from the two loaded files to the
  returned dictionary, in the order of the source. The montage is built and never used.
\<close>

definition assemble :: "train_mat \<Rightarrow> test_mat \<Rightarrow> py_error + sessions" where
  "assemble train_data test_data =
     (let names = nfo_clab train_data @ [''stim''];
          types = replicate 118 ''eeg'' @ [''stim'']
      in case create_info names types (nfo_fs train_data) of
        Inl e \<Rightarrow> Inl e
      | Inr info \<Rightarrow>
     (let raw_data = np_T (cnt train_data)
      in case split_sample_position train_data test_data of
        Inl e \<Rightarrow> Inl e
      | Inr sep_pos \<Rightarrow>
     (case make_raw_event (shape1 raw_data) (mrk_pos train_data) (true_y test_data) of
        Inl e \<Rightarrow> Inl e
      | Inr raw_event \<Rightarrow>
     (case np_concatenate0 raw_data raw_event of
        Inl e \<Rightarrow> Inl e
      | Inr d \<Rightarrow>
     (case RawArray (fst (partition_at d sep_pos)) info of
        Inl e \<Rightarrow> Inl e
      | Inr raw_train \<Rightarrow>
     (case RawArray (snd (partition_at d sep_pos)) info of
        Inl e \<Rightarrow> Inl e
      | Inr raw_test \<Rightarrow>
          Inr [''session_1'' \<mapsto> [''train'' \<mapsto> raw_train, ''test'' \<mapsto> raw_test]]))))))"

text \<open>
  The inputs of the end-to-end scenario: a recording of 1000 samples on 118 channels, all
  samples zero, with the given cue positions, and a label file whose boundary index is 2
  (the third cue), with the given label vector.
\<close>

definition scenario_train :: "int list \<Rightarrow> train_mat" where
  "scenario_train cues =
     \<lparr>cnt = np_zeros 1000 118, nfo_clab = map (\<lambda>k. ''ch'' @ str_nat k) [0..<118],
      nfo_fs = 1000, mrk_pos = cues\<rparr>"

definition scenario_test :: "real list \<Rightarrow> test_mat" where
  "scenario_test labels = \<lparr>test_idx = [2], true_y = labels\<rparr>"

text \<open>
  The labelled events of a segment: the non-zero entries of its last row, the event channel.
\<close>

definition labeled_events :: "raw \<Rightarrow> nat" where
  "labeled_events r = length (filter (\<lambda>v. v \<noteq> 0) (last (rows (raw_data r))))"

definition segment :: "py_error + sessions \<Rightarrow> string \<Rightarrow> raw option" where
  "segment res name =
     (case res of
        Inl e \<Rightarrow> None
      | Inr out \<Rightarrow> (case out ''session_1'' of None \<Rightarrow> None | Some ses \<Rightarrow> ses name))"

section \<open>Files, network and clock\<close>

text \<open>
  The part of the machine the code touches. \<open>files\<close> holds the regular files by path and
  \<open>dirs\<close> the directories that \<open>os.path.isdir\<close> sees; a destination path that names a
  directory is outside the model. \<open>fsize_limit\<close> is the largest size a file may reach: a write
  beyond it raises OSError, which stands for every failure of \<open>local_file.write\<close>. \<open>net\<close> is
  what the network answers to a request, \<open>now\<close> the reading the k-th call of \<open>time.time()\<close>
  returns, \<open>ticks\<close> the number of readings taken so far. \<open>io_log\<close> records every file and
  network operation in the order it happens, reads included.

  Clock readings are float64 values, each given by the real number it denotes. Comparing two
  float64 values is comparing these numbers. Subtracting them rounds, and the model does not
  compute the rounding: \<open>fsub a b\<close> is the float64 value of \<open>a - b\<close>, a parameter of the
  machine.

  \<open>size_trace\<close> belongs to no device: it collects the values the local variable
  \<open>chunk_size\<close> of \<open>download_file\<close> takes, so that they can be spoken of.
\<close>

type_synonym bytes = string

record http_request =
  req_url :: string
  req_auth :: "(string \<times> string) option"
  req_timeout :: int
  req_verify :: bool

text \<open>
  What the streamed response hands to \<open>download_file\<close>: \<open>parsed_length\<close> is the value of
  \<open>int(response.headers.get('Content-Length', '0').strip())\<close>, \<open>None\<close> when \<open>int\<close> raises
  ValueError; \<open>iter_content n\<close> is what the iterator \<open>response.iter_content(n)\<close> produces,
  item by item: a chunk of bytes, or the connection breaking.
\<close>

datatype stream_item = Chunk bytes | Broken

record response =
  parsed_length :: "int option"
  iter_content :: "int \<Rightarrow> stream_item list"

datatype io_event =
    IsFile string
  | IsDir string
  | HttpGet http_request
  | OpenWrite string
  | Write string nat
  | Move string string
  | Remove string
  | ReadFile string
  | Extract string string
  | ConfigRead string
  | ConfigUpdate string string

record world =
  files :: "string \<rightharpoonup> bytes"
  dirs :: "string set"
  fsize_limit :: nat
  net :: "http_request \<Rightarrow> py_error + response"
  now :: "nat \<Rightarrow> real"
  ticks :: nat
  fsub :: "real \<Rightarrow> real \<Rightarrow> real"
  io_log :: "io_event list"
  size_trace :: "int list"

definition log_io :: "io_event \<Rightarrow> world \<Rightarrow> world" where
  "log_io ev w = w\<lparr>io_log := io_log w @ [ev]\<rparr>"

definition time_time :: "world \<Rightarrow> real \<times> world" where
  "time_time w = (now w (ticks w), w\<lparr>ticks := ticks w + 1\<rparr>)"

definition record_sizes :: "int list \<Rightarrow> world \<Rightarrow> world" where
  "record_sizes sizes w = w\<lparr>size_trace := size_trace w @ sizes\<rparr>"

definition op_isfile :: "string \<Rightarrow> world \<Rightarrow> bool \<times> world" where
  "op_isfile p w = (p \<in> dom (files w), log_io (IsFile p) w)"

definition op_isdir :: "string \<Rightarrow> world \<Rightarrow> bool \<times> world" where
  "op_isdir p w = (p \<in> dirs w, log_io (IsDir p) w)"

text \<open>\<open>os.path.join\<close> of two components (POSIX).\<close>

definition op_join :: "string \<Rightarrow> string \<Rightarrow> string" where
  "op_join a b =
     (if b \<noteq> [] \<and> hd b = CHR ''/'' then b
      else if a = [] \<or> last a = CHR ''/'' then a @ b
      else a @ ''/'' @ b)"

definition requests_get :: "http_request \<Rightarrow> world \<Rightarrow> (py_error + response) \<times> world" where
  "requests_get rq w = (net w rq, log_io (HttpGet rq) w)"

text \<open>\<open>open(path, 'wb')\<close> creates the file, or empties it.\<close>

definition open_wb :: "string \<Rightarrow> world \<Rightarrow> world" where
  "open_wb p w = log_io (OpenWrite p) (w\<lparr>files := (files w)(p \<mapsto> [])\<rparr>)"

definition file_write :: "string \<Rightarrow> bytes \<Rightarrow> world \<Rightarrow> (py_error + unit) \<times> world" where
  "file_write p chunk w =
     (let old = (case files w p of None \<Rightarrow> [] | Some c \<Rightarrow> c);
          w1 = log_io (Write p (length chunk)) w
      in if fsize_limit w < length old + length chunk then (Inl OSError, w1)
         else (Inr (), w1\<lparr>files := (files w1)(p \<mapsto> old @ chunk)\<rparr>))"

definition shutil_move :: "string \<Rightarrow> string \<Rightarrow> world \<Rightarrow> (py_error + unit) \<times> world" where
  "shutil_move src dst w =
     (let w1 = log_io (Move src dst) w
      in case files w src of
           None \<Rightarrow> (Inl FileNotFoundError, w1)
         | Some c \<Rightarrow> (Inr (), w1\<lparr>files := ((files w)(src := None))(dst \<mapsto> c)\<rparr>))"

definition os_remove :: "string \<Rightarrow> world \<Rightarrow> (py_error + unit) \<times> world" where
  "os_remove p w =
     (let w1 = log_io (Remove p) w
      in if p \<in> dom (files w) then (Inr (), w1\<lparr>files := (files w)(p := None)\<rparr>)
         else (Inl FileNotFoundError, w1))"

text \<open>
  The collaborators whose code is not part of the two modules are parameters:
  \<open>dl.create_destination\<close> (first component of its result), the members of a zip archive
  (\<open>None\<close> for a file that is no archive), the two parsers behind \<open>loadmat\<close>, the parser behind
  \<open>read_raw_cnt\<close>, and the directory \<open>_get_path\<close> answers.
\<close>

record env =
  create_destination :: "string \<Rightarrow> string \<Rightarrow> string"
  zip_members :: "bytes \<Rightarrow> (string \<times> bytes) list option"
  parse_train :: "bytes \<Rightarrow> py_error + train_mat"
  parse_test :: "bytes \<Rightarrow> py_error + test_mat"
  parse_cnt :: "bytes \<Rightarrow> py_error + raw"
  get_path :: "string \<Rightarrow> string \<Rightarrow> string"

section \<open>download_file\<close>

text \<open>
  The float64 values of the literals \<open>0.01\<close> and \<open>0.1\<close> of lines 74 and 76, and of the
  latencies \<open>0.005\<close> and \<open>0.2\<close> of the example in the specification.
\<close>

definition float64_0_01 :: real where
  "float64_0_01 = 5764607523034235 / 2 ^ 59"

definition float64_0_1 :: real where
  "float64_0_1 = 3602879701896397 / 2 ^ 55"

definition float64_0_005 :: real where
  "float64_0_005 = 5764607523034235 / 2 ^ 60"

definition float64_0_2 :: real where
  "float64_0_2 = 3602879701896397 / 2 ^ 54"

text \<open>
  Lines 74-77: the chunk size after a chunk with the float64 latency \<open>dt\<close>, compared with the
  two float64 literals.
\<close>

definition adapt :: "int \<Rightarrow> real \<Rightarrow> int" where
  "adapt chunk_size dt =
     (if dt < float64_0_01 then chunk_size * 2
      else if dt > float64_0_1 \<and> chunk_size > 8192 then chunk_size div 2
      else chunk_size)"

text \<open>
  Lines 72-82, the loop over the iterator. Besides the outcome and the world it returns the
  values the variable \<open>chunk_size\<close> took, one per item received.
\<close>

fun write_chunks ::
  "string \<Rightarrow> stream_item list \<Rightarrow> int \<Rightarrow> real \<Rightarrow> world \<Rightarrow> (py_error + unit) \<times> int list \<times> world" where
  "write_chunks tmp [] chunk_size t0 w = (Inr (), [], w)"
| "write_chunks tmp (Broken # rest) chunk_size t0 w = (Inl ConnectionError, [], w)"
| "write_chunks tmp (Chunk chunk # rest) chunk_size t0 w =
     (let (t, w1) = time_time w;
          dt = fsub w t t0;
          chunk_size1 = adapt chunk_size dt
      in if chunk = [] then (Inr (), [chunk_size1], w1)
         else
           (case file_write tmp chunk w1 of
              (Inl e, w2) \<Rightarrow> (Inl e, [chunk_size1], w2)
            | (Inr u, w2) \<Rightarrow>
                (let (t1, w3) = time_time w2
                 in case write_chunks tmp rest chunk_size1 t1 w3 of
                      (r, sizes, w4) \<Rightarrow> (r, chunk_size1 # sizes, w4))))"

text \<open>
  \<open>download_file\<close>, lines 60-84. The progress bar only displays and is left out. The
  iterator is created once, from the value \<open>chunk_size\<close> has before the loop. The values the
  variable took in the loop go to \<open>size_trace\<close>.
\<close>

definition download_file :: "string \<Rightarrow> response \<Rightarrow> world \<Rightarrow> (py_error + string) \<times> world" where
  "download_file destination response w =
     (let temp_file_name = destination @ ''.part''
      in case parsed_length response of
           None \<Rightarrow> (Inl ValueError, w)
         | Some file_size \<Rightarrow>
             (let chunk_size = 8192;
                  w1 = open_wb temp_file_name w;
                  (t0, w2) = time_time w1
              in case write_chunks temp_file_name (iter_content response chunk_size) chunk_size t0 w2 of
                   (Inl e, sizes, w3) \<Rightarrow> (Inl e, record_sizes sizes w3)
                 | (Inr u, sizes, w3) \<Rightarrow>
                     (case shutil_move temp_file_name destination (record_sizes sizes w3) of
                        (Inl e, w4) \<Rightarrow> (Inl e, w4)
                      | (Inr u, w4) \<Rightarrow> (Inr destination, w4))))"

text \<open>
  For comparison only: a download that reads with the fixed chunk size 8192, keeps no
  \<open>chunk_size\<close> variable and never looks at the clock.
\<close>

fun write_chunks_fixed :: "string \<Rightarrow> stream_item list \<Rightarrow> world \<Rightarrow> (py_error + unit) \<times> world" where
  "write_chunks_fixed tmp [] w = (Inr (), w)"
| "write_chunks_fixed tmp (Broken # rest) w = (Inl ConnectionError, w)"
| "write_chunks_fixed tmp (Chunk chunk # rest) w =
     (if chunk = [] then (Inr (), w)
      else
        (case file_write tmp chunk w of
           (Inl e, w2) \<Rightarrow> (Inl e, w2)
         | (Inr u, w2) \<Rightarrow> write_chunks_fixed tmp rest w2))"

definition download_file_fixed :: "string \<Rightarrow> response \<Rightarrow> world \<Rightarrow> (py_error + string) \<times> world" where
  "download_file_fixed destination response w =
     (let temp_file_name = destination @ ''.part''
      in case parsed_length response of
           None \<Rightarrow> (Inl ValueError, w)
         | Some file_size \<Rightarrow>
             (let w1 = open_wb temp_file_name w
              in case write_chunks_fixed temp_file_name (iter_content response 8192) w1 of
                   (Inl e, w3) \<Rightarrow> (Inl e, w3)
                 | (Inr u, w3) \<Rightarrow>
                     (case shutil_move temp_file_name destination w3 of
                        (Inl e, w4) \<Rightarrow> (Inl e, w4)
                      | (Inr u, w4) \<Rightarrow> (Inr destination, w4))))"

text \<open>
  For comparison only: the adaptation rule in the words of the specification, run over a list
  of latencies: double below 0.01 s, halve above 0.1 s when the size is above 8192, leave
  unchanged otherwise. The latencies and the two bounds are float64 values.
\<close>

fun chunk_size_sequence :: "int \<Rightarrow> real list \<Rightarrow> int list" where
  "chunk_size_sequence cs [] = []"
| "chunk_size_sequence cs (dt # dts) =
     (if dt < float64_0_01 then (2 * cs) # chunk_size_sequence (2 * cs) dts
      else if float64_0_1 < dt \<and> 8192 < cs then (cs div 2) # chunk_size_sequence (cs div 2) dts
      else cs # chunk_size_sequence cs dts)"

text \<open>
  The latencies the loop observes for \<open>n\<close> successive items when the next reading of the
  clock is number \<open>k\<close> and the previous chunk was timed at \<open>t0\<close>: an item costs one reading
  on arrival and one after its write, and its latency is the float64 difference \<open>sub\<close> of
  the reading on arrival and \<open>t0\<close>.
\<close>

fun latencies :: "(real \<Rightarrow> real \<Rightarrow> real) \<Rightarrow> (nat \<Rightarrow> real) \<Rightarrow> nat \<Rightarrow> real \<Rightarrow> nat \<Rightarrow> real list" where
  "latencies sub clock k t0 0 = []"
| "latencies sub clock k t0 (Suc n) =
     sub (clock k) t0 # latencies sub clock (k + 2) (clock (k + 1)) n"

text \<open>
  The number of items the loop receives from a stream when no write fails: those up to the
  first empty chunk, that chunk included, or up to the break of the connection.
\<close>

fun received :: "stream_item list \<Rightarrow> nat" where
  "received [] = 0"
| "received (Broken # rest) = 0"
| "received (Chunk chunk # rest) = (if chunk = [] then 1 else Suc (received rest))"

text \<open>
  A machine with an empty disk, no network and a clock whose readings are the given list
  (the last one repeated for ever). Its float64 subtraction is the exact one: the machine is
  used only with readings whose exact difference is a float64 value, where the two agree.
\<close>

definition clock_world :: "real list \<Rightarrow> world" where
  "clock_world ts =
     \<lparr>files = Map.empty, dirs = {}, fsize_limit = 1000000, net = (\<lambda>rq. Inl ConnectionError),
      now = (\<lambda>k. if k < length ts then ts ! k else last ts), ticks = 0,
      fsub = (\<lambda>a b. a - b), io_log = [], size_trace = []\<rparr>"

text \<open>Two machines with the same disk: the same files and the same size limit.\<close>

definition same_disk :: "world \<Rightarrow> world \<Rightarrow> bool" where
  "same_disk w u \<longleftrightarrow> files w = files u \<and> fsize_limit w = fsize_limit u"

section \<open>download_train and download_test\<close>

definition trainURL :: string where
  "trainURL = ''http://bbci.de/competition/download/competition_iii/berlin/1000Hz/''"

definition testURL :: string where
  "testURL = ''https://www.bbci.de/competition/iii/results/''"

text \<open>Lines 38-39: open the archive and extract every member below \<open>base_path\<close>.\<close>

fun extract_members :: "string \<Rightarrow> (string \<times> bytes) list \<Rightarrow> (string \<rightharpoonup> bytes) \<Rightarrow> (string \<rightharpoonup> bytes)" where
  "extract_members base [] fs = fs"
| "extract_members base ((name, content) # ms) fs =
     extract_members base ms (fs(op_join base name \<mapsto> content))"

definition extractall :: "env \<Rightarrow> string \<Rightarrow> string \<Rightarrow> world \<Rightarrow> (py_error + unit) \<times> world" where
  "extractall ev zippath base_path w =
     (let w1 = log_io (Extract zippath base_path) w
      in case files w zippath of
           None \<Rightarrow> (Inl FileNotFoundError, w1)
         | Some b \<Rightarrow>
             (case zip_members ev b of
                None \<Rightarrow> (Inl BadZipFile, w1)
              | Some ms \<Rightarrow> (Inr (), w1\<lparr>files := extract_members base_path ms (files w)\<rparr>)))"

text \<open>Lines 34-37: the archive is requested only when it is not on disk.\<close>

definition fetch_zip :: "string \<Rightarrow> string \<Rightarrow> int \<Rightarrow> world \<Rightarrow> (py_error + string) \<times> world" where
  "fetch_zip url zippath timeout w =
     (case op_isfile zippath w of
        (is_zip, w1) \<Rightarrow>
          if \<not> is_zip then
            (let auth = (''amar.yousif09@gmail.com'', ''AThaLe9ied'')
             in case requests_get
                       \<lparr>req_url = url, req_auth = Some auth, req_timeout = timeout, req_verify = True\<rparr> w1 of
                  (Inl e, w2) \<Rightarrow> (Inl e, w2)
                | (Inr response, w2) \<Rightarrow> download_file zippath response w2)
          else (Inr zippath, w1))"

text \<open>Lines 29, 31 and 32: the URL of the archive and the two paths below \<open>base_path\<close>.\<close>

definition train_url :: "string \<Rightarrow> string" where
  "train_url subject = trainURL @ ''data_set_IVa_'' @ subject @ ''_mat.zip''"

definition train_zippath :: "string \<Rightarrow> string \<Rightarrow> string" where
  "train_zippath base_path subject = op_join base_path (''data_set_IVa_'' @ subject @ ''_mat.zip'')"

definition train_matpath :: "string \<Rightarrow> string \<Rightarrow> string" where
  "train_matpath base_path subject =
     op_join base_path (''1000Hz/data_set_IVa_'' @ subject @ ''.mat'')"

definition download_train :: "env \<Rightarrow> string \<Rightarrow> string \<Rightarrow> world \<Rightarrow> (py_error + string) \<times> world" where
  "download_train ev subject sign w =
     (let url = train_url subject;
          base_path = create_destination ev trainURL sign;
          zippath = train_zippath base_path subject;
          matpath = train_matpath base_path subject
      in case op_isfile matpath w of
           (is_mat, w1) \<Rightarrow>
             if \<not> is_mat then
               (case fetch_zip url zippath 30 w1 of
                  (Inl e, w2) \<Rightarrow> (Inl e, w2)
                | (Inr zippath1, w2) \<Rightarrow>
                    (case extractall ev zippath1 base_path w2 of
                       (Inl e, w3) \<Rightarrow> (Inl e, w3)
                     | (Inr u, w3) \<Rightarrow>
                         (case os_remove zippath1 w3 of
                            (Inl e, w4) \<Rightarrow> (Inl e, w4)
                          | (Inr u, w4) \<Rightarrow> (Inr matpath, w4))))
             else (Inr matpath, w1))"

text \<open>Line 45: the URL of the label file.\<close>

definition test_url :: "string \<Rightarrow> string" where
  "test_url subject = testURL @ ''berlin_IVa/true_labels_'' @ subject @ ''.mat''"

definition download_test :: "env \<Rightarrow> string \<Rightarrow> string \<Rightarrow> world \<Rightarrow> (py_error + string) \<times> world" where
  "download_test ev subject sign w =
     (let url = test_url subject;
          destination = create_destination ev url sign
      in case op_isfile destination w of
           (is_file, w1) \<Rightarrow>
             if \<not> is_file then
               (case requests_get
                       \<lparr>req_url = url, req_auth = None, req_timeout = 30, req_verify = False\<rparr> w1 of
                  (Inl e, w2) \<Rightarrow> (Inl e, w2)
                | (Inr response, w2) \<Rightarrow>
                    (case download_file destination response w2 of
                       (Inl e, w3) \<Rightarrow> (Inl e, w3)
                     | (Inr d, w3) \<Rightarrow> (Inr destination, w3)))
             else (Inr destination, w1))"

text \<open>The number of network transfers a world has seen.\<close>

definition is_transfer :: "io_event \<Rightarrow> bool" where
  "is_transfer ev = (case ev of HttpGet rq \<Rightarrow> True | _ \<Rightarrow> False)"

definition transfers :: "world \<Rightarrow> nat" where
  "transfers w = length (filter is_transfer (io_log w))"

section \<open>The dataset classes\<close>

text \<open>
  Modelled from the spec: \<open>BaseDataset.__init__\<close> (moabb/datasets/base.py, not among the
  sources) keeps the declared population and the other constructor arguments as attributes;
  \<open>subject_list\<close> is the list of declared subjects.
\<close>

record dataset =
  subject_list :: "int list"
  n_sessions :: nat
  event_id :: "(string \<times> int) list"
  code :: string
  interval :: "real \<times> real"
  paradigm :: string
  doi :: string

definition BaseDataset_init ::
  "int list \<Rightarrow> nat \<Rightarrow> (string \<times> int) list \<Rightarrow> string \<Rightarrow> real \<times> real \<Rightarrow> string \<Rightarrow> string \<Rightarrow> dataset" where
  "BaseDataset_init subjects sessions_per_subject events c iv par d =
     \<lparr>subject_list = subjects, n_sessions = sessions_per_subject, event_id = events,
      code = c, interval = iv, paradigm = par, doi = d\<rparr>"

record dataset4a = dataset +
  subject_names :: "string list"

definition Dataset4a_init :: dataset4a where
  "Dataset4a_init =
     dataset.extend
       (BaseDataset_init (map int [1..<6]) 4 [(''right_hand'', 1), (''right_foot'', 2)]
          ''Comp3Dataset4a'' (0, 3.5) ''imagery'' ''10.1109/TBME.2004.827088'')
       (dataset4a.fields [''aa'', ''al'', ''av'', ''aw'', ''ay''])"

definition Ma2020_init :: dataset where
  "Ma2020_init =
     BaseDataset_init (map int [1..<26]) 1 [(''right_hand'', 1), (''right_elbow'', 2), (''rest'', 3)]
       ''Ma2020'' (0, 4) ''imagery'' ''10.1038/s41597-020-0535-2''"

text \<open>\<open>loadmat(path)\<close>: read the file, then parse it.\<close>

definition loadmat :: "(bytes \<Rightarrow> py_error + 'a) \<Rightarrow> string \<Rightarrow> world \<Rightarrow> (py_error + 'a) \<times> world" where
  "loadmat parse p w =
     (let w1 = log_io (ReadFile p) w
      in case files w p of None \<Rightarrow> (Inl FileNotFoundError, w1) | Some b \<Rightarrow> (parse b, w1))"

text \<open>\<open>Dataset4a.data_path\<close>, lines 165-174.\<close>

definition Dataset4a_data_path ::
  "env \<Rightarrow> dataset4a \<Rightarrow> int \<Rightarrow> world \<Rightarrow> (py_error + string list) \<times> world" where
  "Dataset4a_data_path ev self subject w =
     (if subject \<notin> set (subject_list self) then (Inl ValueError, w)
      else
        (case np_getitem (subject_names self) (subject - 1) of
           Inl e \<Rightarrow> (Inl e, w)
         | Inr name \<Rightarrow>
             (case download_train ev name ''BCIComp'' w of
                (Inl e, w1) \<Rightarrow> (Inl e, w1)
              | (Inr train_path, w1) \<Rightarrow>
                  (case download_test ev name ''BCIComp'' w1 of
                     (Inl e, w2) \<Rightarrow> (Inl e, w2)
                   | (Inr test_path, w2) \<Rightarrow> (Inr [train_path, test_path], w2)))))"

text \<open>\<open>Dataset4a._get_single_subject_data\<close>, lines 127-163.\<close>

definition Dataset4a_get_single_subject_data ::
  "env \<Rightarrow> dataset4a \<Rightarrow> int \<Rightarrow> world \<Rightarrow> (py_error + sessions) \<times> world" where
  "Dataset4a_get_single_subject_data ev self subject w =
     (case Dataset4a_data_path ev self subject w of
        (Inl e, w1) \<Rightarrow> (Inl e, w1)
      | (Inr paths, w1) \<Rightarrow>
          (case loadmat (parse_train ev) (paths ! 0) w1 of
             (Inl e, w2) \<Rightarrow> (Inl e, w2)
           | (Inr train_data, w2) \<Rightarrow>
               (case loadmat (parse_test ev) (paths ! 1) w2 of
                  (Inl e, w3) \<Rightarrow> (Inl e, w3)
                | (Inr test_data, w3) \<Rightarrow>
                    (case assemble train_data test_data of
                       Inl e \<Rightarrow> (Inl e, w3)
                     | Inr out \<Rightarrow> (Inr out, w3)))))"

section \<open>Ma2020\<close>

text \<open>\<open>'{:0wd}'.format(i)\<close>: decimal digits, padded with zeros to the width.\<close>

definition zero_pad :: "nat \<Rightarrow> string \<Rightarrow> string" where
  "zero_pad width s = replicate (width - length s) CHR ''0'' @ s"

definition format_0d :: "nat \<Rightarrow> int \<Rightarrow> string" where
  "format_0d width i =
     (if i < 0 then ''-'' @ zero_pad (width - 1) (str_nat (nat (- i)))
      else zero_pad width (str_nat (nat i)))"

definition backslash :: string where
  "backslash = [CHR 0x5C]"

text \<open>Lines 101-104: the relative path of one session file, backslashes as written.\<close>

definition session_path :: "int \<Rightarrow> nat \<Rightarrow> string" where
  "session_path subject session =
     (let sub = ''sub-'' @ format_0d 3 subject;
          ses = ''ses-'' @ format_0d 2 (int session);
          task = (if 1 \<le> session \<and> session < 16 then ''motorimagery'' else ''rest'')
      in ''sourcedata'' @ backslash @ sub @ backslash @ ses @ backslash @ ''eeg'' @ backslash
         @ sub @ ''_'' @ ses @ ''_task-'' @ task @ ''_eeg.cnt'')"

text \<open>\<open>Ma2020.data_path\<close>, lines 85-107. The printed instructions are the empty string.\<close>

definition Ma2020_data_path ::
  "env \<Rightarrow> dataset \<Rightarrow> int \<Rightarrow> world \<Rightarrow> (py_error + string list) \<times> world" where
  "Ma2020_data_path ev self subject w =
     (if subject \<notin> set (subject_list self) then (Inl ValueError, w)
      else
        (let key = ''MNE-ma2020-data'';
             w1 = log_io (ConfigRead key) w;
             path = get_path ev key ''Ma2020'';
             w2 = log_io (ConfigUpdate key path) w1;
             basepath = op_join path key
         in case op_isdir basepath w2 of
              (False, w3) \<Rightarrow> (Inl FileNotFoundError, w3)
            | (True, w3) \<Rightarrow>
                (Inr (map (\<lambda>session. op_join basepath (session_path subject session)) [1..<20]), w3)))"

text \<open>\<open>read_raw_cnt(path, preload=True)\<close>: read the file, then parse it.\<close>

definition read_raw_cnt :: "env \<Rightarrow> string \<Rightarrow> world \<Rightarrow> (py_error + raw) \<times> world" where
  "read_raw_cnt ev p w = loadmat (parse_cnt ev) p w"

text \<open>
  \<open>raw.drop_channels(names)\<close>, for names that are all channels of the recording: the named
  channels go, with their types and data rows; MNE raises ValueError when no channel would
  be left.
\<close>

definition drop_channels :: "raw \<Rightarrow> string list \<Rightarrow> py_error + raw" where
  "drop_channels r names =
     (let i = raw_info r;
          kept = filter (\<lambda>(n, t, row). n \<notin> set names)
                   (zip (ch_names i) (zip (ch_types i) (rows (raw_data r))))
      in if kept = [] then Inl ValueError
         else Inr (r\<lparr>raw_info := i\<lparr>ch_names := map fst kept, ch_types := map (fst \<circ> snd) kept\<rparr>,
                    raw_data := (raw_data r)\<lparr>shape0 := length kept, rows := map (snd \<circ> snd) kept\<rparr>\<rparr>))"

text \<open>Line 70: \<open>astype('<U11')\<close> keeps at most eleven characters of each description.\<close>

definition astype_U11 :: "string list \<Rightarrow> string list" where
  "astype_U11 ds = map (take 11) ds"

text \<open>Lines 72-73: \<open>stim[stim == old] = new\<close>.\<close>

definition replace_equal :: "string \<Rightarrow> string \<Rightarrow> string list \<Rightarrow> string list" where
  "replace_equal old new stim = map (\<lambda>s. if s = old then new else s) stim"

text \<open>Lines 77-79: the event array of a run without annotations, one row per trial.\<close>

definition rest_events :: "real \<Rightarrow> real list list" where
  "rest_events fs = map (\<lambda>k. [real k * fs * 4.25, 0, 3]) [0..<75]"

text \<open>
  \<open>mne.annotations_from_events(events, sfreq, event_desc)\<close>, as documented: the events whose
  id (last column) the table names become annotations of duration zero, with the onset in
  seconds and the description the table gives.
\<close>

definition annotations_from_events ::
  "real list list \<Rightarrow> real \<Rightarrow> (real \<times> string) list \<Rightarrow> annotation list" where
  "annotations_from_events events fs event_desc =
     map (\<lambda>e. \<lparr>onset = hd e / fs, duration = 0, description = the (map_of event_desc (last e))\<rparr>)
       (filter (\<lambda>e. last e \<in> fst ` set event_desc) events)"

text \<open>
  \<open>raw.set_annotations(annotations)\<close> for annotations without a time of origin, as MNE does
  it: the annotations are cropped to the recording, from time 0 to the time of the last
  sample plus one sample period, that is \<open>n / sfreq\<close> for \<open>n\<close> samples. An annotation that
  begins after that time or ends before 0 is left out; the others are cut to the range.
  Times are idealised as real numbers, as the sampling rate and the onsets are.
\<close>

definition crop_annotation :: "real \<Rightarrow> real \<Rightarrow> annotation \<Rightarrow> annotation" where
  "crop_annotation tmin tmax a =
     (let on = max tmin (onset a);
          off = min tmax (onset a + duration a)
      in a\<lparr>onset := on, duration := off - on\<rparr>)"

definition set_annotations :: "raw \<Rightarrow> annotation list \<Rightarrow> raw" where
  "set_annotations r anns =
     (let tmax = real (shape1 (raw_data r)) / sfreq (raw_info r);
          kept = filter (\<lambda>a. \<not> (onset a > tmax \<or> onset a + duration a < 0)) anns
      in r\<lparr>annotations := map (crop_annotation 0 tmax) kept\<rparr>)"

text \<open>Lines 65-80: what is done to the recording of one run.\<close>

definition process_run :: "raw \<Rightarrow> py_error + raw" where
  "process_run raw0 =
     (let remove_chs = [''HEO'', ''VEO'', ''EMG1'', ''EMG2''];
          emg_chs = filter (\<lambda>emg. emg \<in> set (ch_names (raw_info raw0))) remove_chs
      in case drop_channels raw0 emg_chs of
           Inl e \<Rightarrow> Inl e
         | Inr raw1 \<Rightarrow>
             (let stim = astype_U11 (map description (annotations raw1))
              in if length stim \<noteq> 0 then
                   (let stim1 = replace_equal ''1'' ''right_hand'' stim;
                        stim2 = replace_equal ''2'' ''right_elbow'' stim1
                    in Inr (raw1\<lparr>annotations :=
                                map2 (\<lambda>a s. a\<lparr>description := s\<rparr>) (annotations raw1) stim2\<rparr>))
                 else
                   (let fs = sfreq (raw_info raw1);
                        events = rest_events fs
                    in Inr (set_annotations raw1
                              (annotations_from_events events fs [(3, ''rest'')])))))"

text \<open>Lines 63-82: the loop over the runs, filling the dictionary of the session.\<close>

fun load_runs ::
  "env \<Rightarrow> string list \<Rightarrow> nat list \<Rightarrow> session \<Rightarrow> world \<Rightarrow> (py_error + session) \<times> world" where
  "load_runs ev file_paths [] ses w = (Inr ses, w)"
| "load_runs ev file_paths (run # runs) ses w =
     (case np_getitem file_paths (int run - 1) of
        Inl e \<Rightarrow> (Inl e, w)
      | Inr p \<Rightarrow>
          (case read_raw_cnt ev p w of
             (Inl e, w1) \<Rightarrow> (Inl e, w1)
           | (Inr raw0, w1) \<Rightarrow>
               (case process_run raw0 of
                  Inl e \<Rightarrow> (Inl e, w1)
                | Inr raw1 \<Rightarrow>
                    (let run_name = ''run_'' @ str_nat run
                     in load_runs ev file_paths runs (ses(run_name \<mapsto> raw1)) w1))))"

text \<open>\<open>Ma2020._get_single_subject_data\<close>, lines 57-83.\<close>

definition Ma2020_get_single_subject_data ::
  "env \<Rightarrow> dataset \<Rightarrow> int \<Rightarrow> world \<Rightarrow> (py_error + sessions) \<times> world" where
  "Ma2020_get_single_subject_data ev self subject w =
     (case Ma2020_data_path ev self subject w of
        (Inl e, w1) \<Rightarrow> (Inl e, w1)
      | (Inr file_paths, w1) \<Rightarrow>
          (case load_runs ev file_paths [1..<20] Map.empty w1 of
             (Inl e, w2) \<Rightarrow> (Inl e, w2)
           | (Inr ses, w2) \<Rightarrow> (Inr [''session_1'' \<mapsto> ses], w2)))"

section \<open>Concrete collaborators\<close>

text \<open>
  One choice of the collaborators, for running the code on concrete inputs: destinations are
  \<open>/sign/url\<close>, an archive has the given members whatever its bytes, every training file
  parses to the scenario recording with the given cues and every label file to the given
  labels, every recording file parses to the given recording, and the MNE data directory is
  \<open>/mne_data\<close>.
\<close>

definition demo_env :: "(string \<times> bytes) list \<Rightarrow> int list \<Rightarrow> real list \<Rightarrow> raw \<Rightarrow> env" where
  "demo_env members cues labels recording =
     \<lparr>create_destination = (\<lambda>url sign. ''/'' @ sign @ ''/'' @ url),
      zip_members = (\<lambda>b. Some members),
      parse_train = (\<lambda>b. Inr (scenario_train cues)),
      parse_test = (\<lambda>b. Inr (scenario_test labels)),
      parse_cnt = (\<lambda>b. Inr recording),
      get_path = (\<lambda>key name. ''/mne_data'')\<rparr>"

text \<open>
  Recordings at 1000 Hz of two channels, one of them an EMG channel: one of three samples
  with the given annotations, one of 320000 samples (320 seconds) without annotations, and one
  that has EMG channels only.
\<close>

definition demo_recording :: "annotation list \<Rightarrow> raw" where
  "demo_recording anns =
     \<lparr>raw_info = \<lparr>ch_names = [''C3'', ''EMG1''], ch_types = [''eeg'', ''emg''], sfreq = 1000\<rparr>,
      raw_data = \<lparr>shape0 = 2, shape1 = 3, rows = [[1, 2, 3], [4, 5, 6]]\<rparr>,
      annotations = anns\<rparr>"



text \<open>
  Two machines: one whose disk is empty and whose network answers every request with the
  given items; one where every path is a file and a directory and there is no network. Their
  clocks always read 0, and the float64 difference of 0 and 0 is 0.
\<close>

definition serving_world :: "stream_item list \<Rightarrow> world" where
  "serving_world items =
     \<lparr>files = Map.empty, dirs = {}, fsize_limit = 1000000,
      net = (\<lambda>rq. Inr \<lparr>parsed_length = Some 0, iter_content = (\<lambda>n. items)\<rparr>),
      now = (\<lambda>k. 0), ticks = 0, fsub = (\<lambda>a b. a - b), io_log = [], size_trace = []\<rparr>"

definition cached_world :: world where
  "cached_world =
     \<lparr>files = (\<lambda>p. Some ''data''), dirs = UNIV, fsize_limit = 1000000,
      net = (\<lambda>rq. Inl ConnectionError), now = (\<lambda>k. 0), ticks = 0,
      fsub = (\<lambda>a b. a - b), io_log = [], size_trace = []\<rparr>"

section \<open>Properties of the column partition\<close>

lemma slice_bound_valid: "0 \<le> p \<Longrightarrow> p < int n \<Longrightarrow> slice_bound n p = nat p"
  by (simp add: slice_bound_def)

lemma map2_take_drop: "map2 (@) (map (take s) xss) (map (drop s) xss) = xss"
  by (induction xss) simp_all

lemma partition_at_columns:
  assumes wf: "wf_array d" and p0: "0 \<le> p" and pN: "p < int (shape1 d)"
  shows "(let (train, test) = partition_at d p in
           wf_array train \<and> wf_array test \<and>
           shape0 train = shape0 d \<and> shape0 test = shape0 d \<and>
           shape1 train = nat p \<and> shape1 test = shape1 d - nat p \<and>
           shape1 train + shape1 test = shape1 d \<and>
           map2 (@) (rows train) (rows test) = rows d \<and>
           (\<forall>i<shape0 d. \<forall>j<shape1 d.
              (j < nat p \<longrightarrow> rows train ! i ! j = rows d ! i ! j) \<and>
              (nat p \<le> j \<longrightarrow> rows test ! i ! (j - nat p) = rows d ! i ! j)))"
proof -
  have s: "slice_bound (shape1 d) p = nat p"
    using p0 pN by (rule slice_bound_valid)
  have le: "nat p \<le> shape1 d" using pN by simp
  have len: "length (rows d) = shape0 d"
    and row: "\<And>r. r \<in> set (rows d) \<Longrightarrow> length r = shape1 d"
    using wf by (simp_all add: wf_array_def list_all_iff)
  have wt: "wf_array (cols_before d p)"
    using le by (simp add: wf_array_def cols_before_def Let_def s len list_all_iff row)
  have we: "wf_array (cols_from d p)"
    by (simp add: wf_array_def cols_from_def Let_def s len list_all_iff row)
  have cat: "map2 (@) (rows (cols_before d p)) (rows (cols_from d p)) = rows d"
    by (simp add: cols_before_def cols_from_def Let_def s map2_take_drop)
  have nth: "\<forall>i<shape0 d. \<forall>j<shape1 d.
              (j < nat p \<longrightarrow> rows (cols_before d p) ! i ! j = rows d ! i ! j) \<and>
              (nat p \<le> j \<longrightarrow> rows (cols_from d p) ! i ! (j - nat p) = rows d ! i ! j)"
    using le by (auto simp: cols_before_def cols_from_def Let_def s len row)
  show ?thesis
    unfolding partition_at_def Let_def split_conv
    using wt we cat nth le
    by (simp add: cols_before_def cols_from_def Let_def s)
qed

section \<open>Properties of the Dataset4a assembly\<close>

lemma np_index_range: "np_index n i = Inr k \<Longrightarrow> - int n \<le> i \<and> i < int n \<and> k < n"
  by (auto simp: np_index_def split: if_splits)

lemma np_index_error: "i < - int n \<or> int n \<le> i \<Longrightarrow> np_index n i = Inl IndexError"
  by (auto simp: np_index_def)

lemma np_indices_range:
  "np_indices n idx = Inr ks \<Longrightarrow> \<forall>i\<in>set idx. - int n \<le> i \<and> i < int n"
proof (induction idx arbitrary: ks)
  case Nil
  then show ?case by simp
next
  case (Cons i idx)
  then show ?case
    by (auto split: sum.splits dest: np_index_range)
qed

lemma np_getitem_mem: "np_getitem xs i = Inr v \<Longrightarrow> v \<in> set xs"
  by (auto simp: np_getitem_def split: sum.splits dest: np_index_range)

lemma np_getitem_error: "i < - int (length xs) \<or> int (length xs) \<le> i \<Longrightarrow> np_getitem xs i = Inl IndexError"
  by (simp add: np_getitem_def np_index_error)

lemma np_setitem_cols_range:
  "np_setitem_cols a idx vals = Inr b \<Longrightarrow> \<forall>i\<in>set idx. - int (shape1 a) \<le> i \<and> i < int (shape1 a)"
  by (auto simp: np_setitem_cols_def split: sum.splits dest: np_indices_range)

lemma make_raw_event_range:
  "make_raw_event n cue_pos labels = Inr ev \<Longrightarrow> \<forall>i\<in>set cue_pos. - int n \<le> i \<and> i < int n"
  unfolding make_raw_event_def by (drule np_setitem_cols_range) (simp add: np_zeros_def)

lemma assemble_Inr:
  assumes "assemble train_data test_data = Inr out"
  obtains info sep_pos raw_event d raw_train raw_test where
    "create_info (nfo_clab train_data @ [''stim'']) (replicate 118 ''eeg'' @ [''stim''])
       (nfo_fs train_data) = Inr info"
    "split_sample_position train_data test_data = Inr sep_pos"
    "make_raw_event (shape0 (cnt train_data)) (mrk_pos train_data) (true_y test_data) = Inr raw_event"
    "np_concatenate0 (np_T (cnt train_data)) raw_event = Inr d"
    "RawArray (cols_before d sep_pos) info = Inr raw_train"
    "RawArray (cols_from d sep_pos) info = Inr raw_test"
    "out = [''session_1'' \<mapsto> [''train'' \<mapsto> raw_train, ''test'' \<mapsto> raw_test]]"
  using assms
  by (auto simp: assemble_def Let_def partition_at_def np_T_def split: sum.splits)

lemma slice_bound_index: "- int n \<le> p \<Longrightarrow> p < int n \<Longrightarrow> slice_bound n p < n"
  by (auto simp: slice_bound_def)

lemma create_info_error: "create_info names types fs = Inl e \<Longrightarrow> e = ValueError"
  by (auto simp: create_info_def split: if_splits)

lemma assemble_no_boundary:
  assumes "test_idx test_data = []"
  shows "assemble train_data test_data = Inl ValueError"
proof -
  have "split_sample_position train_data test_data = Inl ValueError"
    using assms by (simp add: split_sample_position_def np_min_def)
  then show ?thesis
    by (auto simp: assemble_def Let_def split: sum.splits dest: create_info_error)
qed

lemma assemble_boundary_out_of_range:
  assumes "np_min (test_idx test_data) = Inr i"
    and "i < - int (length (mrk_pos train_data)) \<or> int (length (mrk_pos train_data)) \<le> i"
  shows "assemble train_data test_data = Inl ValueError \<or> assemble train_data test_data = Inl IndexError"
proof -
  have "split_sample_position train_data test_data = Inl IndexError"
    using assms by (simp add: split_sample_position_def np_getitem_error)
  then show ?thesis
    by (auto simp: assemble_def Let_def split: sum.splits dest: create_info_error)
qed

lemma make_raw_event_shape:
  "make_raw_event n cue_pos labels = Inr ev \<Longrightarrow> shape0 ev = 1 \<and> shape1 ev = n"
  by (auto simp: make_raw_event_def np_setitem_cols_def np_zeros_def split: sum.splits)

lemma np_T_shape: "shape0 (np_T a) = shape1 a" "shape1 (np_T a) = shape0 a"
  by (simp_all add: np_T_def)

lemma assemble_success:
  assumes names: "length (nfo_clab train_data) = 118"
    and fs: "0 < nfo_fs train_data"
    and chans: "shape1 (cnt train_data) = 118"
    and p: "split_sample_position train_data test_data = Inr sep_pos"
    and ev: "make_raw_event (shape0 (cnt train_data)) (mrk_pos train_data) (true_y test_data) = Inr raw_event"
  shows "assemble train_data test_data =
           Inr [''session_1'' \<mapsto>
                 [''train'' \<mapsto>
                    \<lparr>raw_info = \<lparr>ch_names = nfo_clab train_data @ [''stim''],
                                 ch_types = replicate 118 ''eeg'' @ [''stim''],
                                 sfreq = nfo_fs train_data\<rparr>,
                     raw_data = cols_before
                        \<lparr>shape0 = 119, shape1 = shape0 (cnt train_data),
                         rows = rows (np_T (cnt train_data)) @ rows raw_event\<rparr> sep_pos,
                     annotations = []\<rparr>,
                  ''test'' \<mapsto>
                    \<lparr>raw_info = \<lparr>ch_names = nfo_clab train_data @ [''stim''],
                                 ch_types = replicate 118 ''eeg'' @ [''stim''],
                                 sfreq = nfo_fs train_data\<rparr>,
                     raw_data = cols_from
                        \<lparr>shape0 = 119, shape1 = shape0 (cnt train_data),
                         rows = rows (np_T (cnt train_data)) @ rows raw_event\<rparr> sep_pos,
                     annotations = []\<rparr>]]"
proof -
  have sh: "shape0 raw_event = 1" "shape1 raw_event = shape0 (cnt train_data)"
    using make_raw_event_shape [OF ev] by simp_all
  have ci: "create_info (nfo_clab train_data @ [''stim'']) (replicate 118 ''eeg'' @ [''stim''])
       (nfo_fs train_data) = Inr \<lparr>ch_names = nfo_clab train_data @ [''stim''],
                                 ch_types = replicate 118 ''eeg'' @ [''stim''],
                                 sfreq = nfo_fs train_data\<rparr>"
    using names fs by (simp add: create_info_def)
  have cc: "np_concatenate0 (np_T (cnt train_data)) raw_event =
      Inr \<lparr>shape0 = 119, shape1 = shape0 (cnt train_data),
           rows = rows (np_T (cnt train_data)) @ rows raw_event\<rparr>"
    using sh chans by (simp add: np_concatenate0_def np_T_def)
  show ?thesis
    unfolding assemble_def Let_def
    by (simp add: ci p np_T_shape ev cc partition_at_def RawArray_def cols_before_def cols_from_def names Let_def)
qed

lemma scenario_split:
  "split_sample_position (scenario_train [c0, c1, c2]) (scenario_test labels) = Inr c2"
  by (simp add: split_sample_position_def scenario_train_def scenario_test_def np_min_def
        np_getitem_def np_index_def)

lemma scenario_event_row:
  "make_raw_event 1000 [100, 500, c] [1, 2, y] =
     (if 0 \<le> c \<and> c < 1000 then
        Inr \<lparr>shape0 = 1, shape1 = 1000, rows = [(replicate 1000 0)[100 := 1, 500 := 2, nat c := y]]\<rparr>
      else if - 1000 \<le> c \<and> c < 0 then
        Inr \<lparr>shape0 = 1, shape1 = 1000, rows = [(replicate 1000 0)[100 := 1, 500 := 2, nat (c + 1000) := y]]\<rparr>
      else Inl IndexError)"
  by (simp add: make_raw_event_def np_setitem_cols_def np_broadcast_def np_index_def np_zeros_def)

lemma scenario_succeeds:
  assumes "- 1000 \<le> c" "c < 1000"
  shows "\<not> isl (assemble (scenario_train [100, 500, c]) (scenario_test [1, 2, y]))"
proof -
  let ?tr = "scenario_train [100, 500, c]" and ?te = "scenario_test [1, 2, y]"
  obtain ev where "make_raw_event 1000 [100, 500, c] [1, 2, y] = Inr ev"
    using assms by (cases "0 \<le> c") (simp_all add: scenario_event_row)
  then have ev: "make_raw_event (shape0 (cnt ?tr)) (mrk_pos ?tr) (true_y ?te) = Inr ev"
    by (simp add: scenario_train_def scenario_test_def np_zeros_def)
  have n: "length (nfo_clab ?tr) = 118" by (simp add: scenario_train_def)
  have f: "0 < nfo_fs ?tr" by (simp add: scenario_train_def)
  have c: "shape1 (cnt ?tr) = 118" by (simp add: scenario_train_def np_zeros_def)
  show ?thesis
    by (simp only: assemble_success [OF n f c scenario_split ev] sum.disc simp_thms)
qed

text \<open>
  C1 (as the code has it). Whenever the assembly of Dataset4a returns, the split position is
  one of the cue positions and a valid NumPy index of the sample axis, \<open>-N \<le> p < N\<close> for
  \<open>N\<close> samples (a negative position counts from the end), and the column at which the data
  is cut lies in \<open>[0, N)\<close>. A label file with no boundary index makes the assembly fail with
  ValueError; a boundary index outside \<open>[-K, K)\<close>, for \<open>K\<close> cue positions, makes it fail with
  IndexError (or with the ValueError of an earlier check). No split point is chosen in either
  case.
\<close>

theorem split_position_numpy_index:
  "(assemble train_data test_data = Inr out \<longrightarrow>
      (\<exists>p. split_sample_position train_data test_data = Inr p \<and> p \<in> set (mrk_pos train_data) \<and>
           - int (shape0 (cnt train_data)) \<le> p \<and> p < int (shape0 (cnt train_data)) \<and>
           slice_bound (shape0 (cnt train_data)) p < shape0 (cnt train_data))) \<and>
   (test_idx test_data = [] \<longrightarrow> assemble train_data test_data = Inl ValueError) \<and>
   (\<forall>i. np_min (test_idx test_data) = Inr i \<and>
        (i < - int (length (mrk_pos train_data)) \<or> int (length (mrk_pos train_data)) \<le> i) \<longrightarrow>
        assemble train_data test_data = Inl ValueError \<or>
        assemble train_data test_data = Inl IndexError)"
proof (intro conjI impI allI)
  assume "assemble train_data test_data = Inr out"
  then obtain p raw_event where
    p: "split_sample_position train_data test_data = Inr p" and
    ev: "make_raw_event (shape0 (cnt train_data)) (mrk_pos train_data) (true_y test_data) = Inr raw_event"
    by (rule assemble_Inr)
  from p have mem: "p \<in> set (mrk_pos train_data)"
    by (auto simp: split_sample_position_def split: sum.splits dest: np_getitem_mem)
  with make_raw_event_range [OF ev]
  have rng: "- int (shape0 (cnt train_data)) \<le> p \<and> p < int (shape0 (cnt train_data))"
    by blast
  then have "slice_bound (shape0 (cnt train_data)) p < shape0 (cnt train_data)"
    by (simp add: slice_bound_index)
  with p mem rng
  show "\<exists>p. split_sample_position train_data test_data = Inr p \<and> p \<in> set (mrk_pos train_data) \<and>
           - int (shape0 (cnt train_data)) \<le> p \<and> p < int (shape0 (cnt train_data)) \<and>
           slice_bound (shape0 (cnt train_data)) p < shape0 (cnt train_data)"
    by blast
next
  assume "test_idx test_data = []"
  then show "assemble train_data test_data = Inl ValueError"
    by (rule assemble_no_boundary)
next
  fix i
  assume "np_min (test_idx test_data) = Inr i \<and>
        (i < - int (length (mrk_pos train_data)) \<or> int (length (mrk_pos train_data)) \<le> i)"
  then show "assemble train_data test_data = Inl ValueError \<or>
        assemble train_data test_data = Inl IndexError"
    using assemble_boundary_out_of_range by blast
qed

theorem split_position_numpy_index_witness:
  "\<not> isl (assemble (scenario_train [100, 500, 900]) (scenario_test [1, 2, 0])) \<and>
   (\<exists>p. split_sample_position (scenario_train [100, 500, 900]) (scenario_test [1, 2, 0]) = Inr p \<and>
        p \<in> set [100, 500, 900] \<and> - 1000 \<le> p \<and> p < 1000 \<and> slice_bound 1000 p < 1000) \<and>
   assemble (scenario_train [100, 500, 900]) \<lparr>test_idx = [], true_y = [1, 2, 0]\<rparr> = Inl ValueError \<and>
   (assemble (scenario_train [100, 500, 900]) \<lparr>test_idx = [3], true_y = [1, 2, 0]\<rparr> = Inl ValueError \<or>
    assemble (scenario_train [100, 500, 900]) \<lparr>test_idx = [3], true_y = [1, 2, 0]\<rparr> = Inl IndexError)"
proof -
  let ?tr = "scenario_train [100, 500, 900]" and ?te = "scenario_test [1, 2, 0]"
  have ok: "\<not> isl (assemble ?tr ?te)"
    using scenario_succeeds [of 900 0] by simp
  then have r: "assemble ?tr ?te = Inr (projr (assemble ?tr ?te))" by simp
  have N: "shape0 (cnt ?tr) = 1000" and M: "mrk_pos ?tr = [100, 500, 900]"
    by (simp_all add: scenario_train_def np_zeros_def)
  from split_position_numpy_index [of ?tr ?te "projr (assemble ?tr ?te)"] r
  have a: "\<exists>p. split_sample_position ?tr ?te = Inr p \<and>
        p \<in> set [100, 500, 900] \<and> - 1000 \<le> p \<and> p < 1000 \<and> slice_bound 1000 p < 1000"
    unfolding N M by simp
  have e: "test_idx \<lparr>test_idx = [], true_y = [1, 2, 0 :: real]\<rparr> = []" by simp
  from split_position_numpy_index [of ?tr "\<lparr>test_idx = [], true_y = [1, 2, 0]\<rparr>" Map.empty] e
  have b: "assemble ?tr \<lparr>test_idx = [], true_y = [1, 2, 0]\<rparr> = Inl ValueError"
    by blast
  have m: "np_min (test_idx \<lparr>test_idx = [3], true_y = [1, 2, 0 :: real]\<rparr>) = Inr 3 \<and>
      (3 < - int (length (mrk_pos ?tr)) \<or> int (length (mrk_pos ?tr)) \<le> 3)"
    by (simp add: np_min_def M)
  from split_position_numpy_index [of ?tr "\<lparr>test_idx = [3], true_y = [1, 2, 0]\<rparr>" Map.empty] m
  have c: "assemble ?tr \<lparr>test_idx = [3], true_y = [1, 2, 0]\<rparr> = Inl ValueError \<or>
    assemble ?tr \<lparr>test_idx = [3], true_y = [1, 2, 0]\<rparr> = Inl IndexError"
    by blast
  from ok a b c show ?thesis by blast
qed

text \<open>
  The split position need not lie in \<open>[0, N)\<close>: with 1000 samples and cue positions
  100, 500 and -100, the third cue being the boundary, the assembly returns and the split
  position is -100.
\<close>

theorem split_position_negative_counterexample:
  "\<not> isl (assemble (scenario_train [100, 500, - 100]) (scenario_test [1, 2, 0])) \<and>
   split_sample_position (scenario_train [100, 500, - 100]) (scenario_test [1, 2, 0]) = Inr (- 100) \<and>
   shape0 (cnt (scenario_train [100, 500, - 100])) = 1000 \<and>
   \<not> (0 \<le> (- 100 :: int))"
proof -
  have a: "\<not> isl (assemble (scenario_train [100, 500, - 100]) (scenario_test [1, 2, 0]))"
    using scenario_succeeds [of "- 100" 0] by simp
  have b: "shape0 (cnt (scenario_train [100, 500, - 100])) = 1000"
    by (simp add: scenario_train_def np_zeros_def)
  from a b show ?thesis
    by (simp add: scenario_split)
qed

section \<open>The event row\<close>

lemma assign_all_length: "length (assign_all row kvs) = length row"
  by (induction row kvs rule: assign_all.induct) simp_all

lemma assign_all_other: "j \<notin> fst ` set kvs \<Longrightarrow> assign_all row kvs ! j = row ! j"
  by (induction row kvs rule: assign_all.induct) auto

lemma assign_all_last_wins:
  assumes "k < length kvs" and "fst (kvs ! k) < length row"
    and "\<forall>k'. k < k' \<and> k' < length kvs \<longrightarrow> fst (kvs ! k') \<noteq> fst (kvs ! k)"
  shows "assign_all row kvs ! fst (kvs ! k) = snd (kvs ! k)"
  using assms
proof (induction row kvs arbitrary: k rule: assign_all.induct)
  case (1 row)
  then show ?case by simp
next
  case (2 row j v kvs)
  show ?case
  proof (cases k)
    case 0
    have "j \<notin> fst ` set kvs"
    proof
      assume "j \<in> fst ` set kvs"
      then obtain m where "m < length kvs" "fst (kvs ! m) = j"
        by (auto simp: in_set_conv_nth)
      with "2.prems"(3) 0 show False
        by (auto dest: spec [where x = "Suc m"])
    qed
    then have "assign_all (row[j := v]) kvs ! j = row[j := v] ! j"
      by (rule assign_all_other)
    with "2.prems"(2) 0 show ?thesis by simp
  next
    case (Suc m)
    have "assign_all (row[j := v]) kvs ! fst (kvs ! m) = snd (kvs ! m)"
    proof (rule "2.IH")
      show "m < length kvs" using "2.prems"(1) Suc by simp
      show "fst (kvs ! m) < length (row[j := v])" using "2.prems"(2) Suc by simp
      show "\<forall>k'. m < k' \<and> k' < length kvs \<longrightarrow> fst (kvs ! k') \<noteq> fst (kvs ! m)"
      proof (intro allI impI)
        fix k' assume "m < k' \<and> k' < length kvs"
        then have "k < Suc k' \<and> Suc k' < length ((j, v) # kvs)" using Suc by simp
        with "2.prems"(3) have "fst (((j, v) # kvs) ! Suc k') \<noteq> fst (((j, v) # kvs) ! k)"
          by blast
        then show "fst (kvs ! k') \<noteq> fst (kvs ! m)" using Suc by simp
      qed
    qed
    with Suc show ?thesis by simp
  qed
qed

lemma np_indices_nth:
  "np_indices n idx = Inr ks \<Longrightarrow>
     length ks = length idx \<and> (\<forall>k<length idx. np_index n (idx ! k) = Inr (ks ! k) \<and> ks ! k < n)"
proof (induction idx arbitrary: ks)
  case Nil
  then show ?case by simp
next
  case (Cons i idx)
  then obtain k0 ks0 where i: "np_index n i = Inr k0" and r: "np_indices n idx = Inr ks0"
    and ks: "ks = k0 # ks0"
    by (auto split: sum.splits)
  from Cons.IH [OF r] i ks np_index_range [OF i] show ?case
    by (auto simp: nth_Cons split: nat.splits)
qed

lemma np_broadcast_nth:
  "np_broadcast k vals = Inr vs \<Longrightarrow>
     length vs = k \<and> (\<forall>m<k. vs ! m = (if length vals = k then vals ! m else hd vals))"
  by (auto simp: np_broadcast_def split: if_splits)

lemma make_raw_event_row:
  assumes "make_raw_event n cue_pos labels = Inr ev"
  shows "\<exists>row. rows ev = [row] \<and> shape0 ev = 1 \<and> shape1 ev = n \<and> length row = n \<and>
     (\<forall>j<n. (\<forall>k<length cue_pos. np_index n (cue_pos ! k) \<noteq> Inr j) \<longrightarrow> row ! j = 0) \<and>
     (\<forall>k j. k < length cue_pos \<and> np_index n (cue_pos ! k) = Inr j \<and>
            (\<forall>k'. k < k' \<and> k' < length cue_pos \<longrightarrow> np_index n (cue_pos ! k') \<noteq> Inr j) \<longrightarrow>
            row ! j = (if length labels = length cue_pos then labels ! k else hd labels))"
proof -
  from assms obtain vs ks where
    vs: "np_broadcast (length cue_pos) labels = Inr vs" and
    ks: "np_indices n cue_pos = Inr ks" and
    ev: "ev = \<lparr>shape0 = 1, shape1 = n, rows = [assign_all (replicate n 0) (zip ks vs)]\<rparr>"
    by (auto simp: make_raw_event_def np_setitem_cols_def np_zeros_def split: sum.splits)
  let ?row = "assign_all (replicate n 0) (zip ks vs)"
  note K = np_indices_nth [OF ks] and V = np_broadcast_nth [OF vs]
  have lk: "length ks = length cue_pos" and lv: "length vs = length cue_pos"
    using K V by simp_all
  have len: "length (zip ks vs) = length cue_pos" using lk lv by simp
  have zero: "\<forall>j<n. (\<forall>k<length cue_pos. np_index n (cue_pos ! k) \<noteq> Inr j) \<longrightarrow> ?row ! j = 0"
  proof (intro allI impI)
    fix j assume j: "j < n" and no: "\<forall>k<length cue_pos. np_index n (cue_pos ! k) \<noteq> Inr j"
    have "j \<notin> fst ` set (zip ks vs)"
    proof
      assume "j \<in> fst ` set (zip ks vs)"
      then obtain m where "m < length (zip ks vs)" "fst (zip ks vs ! m) = j"
        by (auto simp: in_set_conv_nth)
      then have "m < length cue_pos" "ks ! m = j" using lk lv by simp_all
      with K no show False by auto
    qed
    then have "?row ! j = replicate n 0 ! j" by (rule assign_all_other)
    with j show "?row ! j = 0" by simp
  qed
  have lab: "\<forall>k j. k < length cue_pos \<and> np_index n (cue_pos ! k) = Inr j \<and>
            (\<forall>k'. k < k' \<and> k' < length cue_pos \<longrightarrow> np_index n (cue_pos ! k') \<noteq> Inr j) \<longrightarrow>
            ?row ! j = (if length labels = length cue_pos then labels ! k else hd labels)"
  proof (intro allI impI, elim conjE)
    fix k j
    assume k: "k < length cue_pos" and j: "np_index n (cue_pos ! k) = Inr j"
      and later: "\<forall>k'. k < k' \<and> k' < length cue_pos \<longrightarrow> np_index n (cue_pos ! k') \<noteq> Inr j"
    have kj: "ks ! k = j" using K k j by auto
    have f: "fst (zip ks vs ! k) = j" and s: "snd (zip ks vs ! k) = vs ! k"
      using k lk lv kj by simp_all
    have "assign_all (replicate n 0) (zip ks vs) ! fst (zip ks vs ! k) = snd (zip ks vs ! k)"
    proof (rule assign_all_last_wins)
      show "k < length (zip ks vs)" using k len by simp
      show "fst (zip ks vs ! k) < length (replicate n (0::real))" using f K k kj by auto
      show "\<forall>k'. k < k' \<and> k' < length (zip ks vs) \<longrightarrow> fst (zip ks vs ! k') \<noteq> fst (zip ks vs ! k)"
      proof (intro allI impI)
        fix k' assume a: "k < k' \<and> k' < length (zip ks vs)"
        then have k': "k' < length cue_pos" using lk by simp
        with later a have "np_index n (cue_pos ! k') \<noteq> Inr j" by blast
        with K k' have "ks ! k' \<noteq> j" by auto
        with k' lk lv f show "fst (zip ks vs ! k') \<noteq> fst (zip ks vs ! k)" by simp
      qed
    qed
    with f s V k show "?row ! j = (if length labels = length cue_pos then labels ! k else hd labels)"
      by simp
  qed
  show ?thesis
    using zero lab by (simp add: ev assign_all_length)
qed

lemma scenario_segments:
  assumes "0 \<le> c" "c < 1000"
  shows "map_option (\<lambda>r. (shape1 (raw_data r), last (rows (raw_data r))))
           (segment (assemble (scenario_train [100, 500, c]) (scenario_test [1, 2, y])) ''train'') =
         Some (nat c, take (nat c) ((replicate 1000 0)[100 := 1, 500 := 2, nat c := y]))"
    and "map_option (\<lambda>r. (shape1 (raw_data r), last (rows (raw_data r))))
           (segment (assemble (scenario_train [100, 500, c]) (scenario_test [1, 2, y])) ''test'') =
         Some (1000 - nat c, drop (nat c) ((replicate 1000 0)[100 := 1, 500 := 2, nat c := y]))"
proof -
  let ?tr = "scenario_train [100, 500, c]" and ?te = "scenario_test [1, 2, y]"
  let ?ev = "\<lparr>shape0 = 1, shape1 = 1000, rows = [(replicate 1000 0)[100 := 1, 500 := 2, nat c := y]]\<rparr>"
  have "make_raw_event 1000 [100, 500, c] [1, 2, y] = Inr ?ev"
    using assms by (simp add: scenario_event_row)
  then have ev: "make_raw_event (shape0 (cnt ?tr)) (mrk_pos ?tr) (true_y ?te) = Inr ?ev"
    by (simp add: scenario_train_def scenario_test_def np_zeros_def)
  have n: "length (nfo_clab ?tr) = 118" by (simp add: scenario_train_def)
  have f: "0 < nfo_fs ?tr" by (simp add: scenario_train_def)
  have ch: "shape1 (cnt ?tr) = 118" by (simp add: scenario_train_def np_zeros_def)
  have N: "shape0 (cnt ?tr) = 1000" by (simp add: scenario_train_def np_zeros_def)
  have sb: "slice_bound 1000 c = nat c"
    using assms by (simp add: slice_bound_def)
  note a = assemble_success [OF n f ch scenario_split ev]
  show "map_option (\<lambda>r. (shape1 (raw_data r), last (rows (raw_data r))))
           (segment (assemble ?tr ?te) ''train'') =
         Some (nat c, take (nat c) ((replicate 1000 0)[100 := 1, 500 := 2, nat c := y]))"
    by (simp add: a segment_def cols_before_def Let_def N sb)
  show "map_option (\<lambda>r. (shape1 (raw_data r), last (rows (raw_data r))))
           (segment (assemble ?tr ?te) ''test'') =
         Some (1000 - nat c, drop (nat c) ((replicate 1000 0)[100 := 1, 500 := 2, nat c := y]))"
    by (simp add: a segment_def cols_from_def Let_def N sb)
qed

lemma count_train: "length (filter (\<lambda>v. v \<noteq> 0) (take 900 ((replicate 1000 (0::real))[100 := 1, 500 := 2]))) = 2"
  by code_simp
lemma count_test0: "length (filter (\<lambda>v. v \<noteq> 0) (drop 900 ((replicate 1000 (0::real))[100 := 1, 500 := 2, 900 := 0]))) = 0"
  by code_simp
lemma count_test2: "length (filter (\<lambda>v. v \<noteq> 0) (drop 900 ((replicate 1000 (0::real))[100 := 1, 500 := 2, 900 := 2]))) = 1"
  by code_simp

text \<open>
  C2 (as the code has it). When the event row is built, it has one entry per sample; an entry
  that no cue position names is zero; the entry a cue position names holds the label of that
  cue as the label vector gives it (the label of the last such cue when several name the same
  sample; the one label for all when the vector has a single entry). Nothing is set to zero
  for the cues at or after the boundary. In the scenario of 1000 samples with cues at 100,
  500 and 900, boundary at the third cue and label vector 1, 2, 0, the train segment has the
  900 samples before the boundary with two labelled events and the test segment the other
  100 samples with none.
\<close>

theorem event_row_as_assigned:
  "(make_raw_event n cue_pos labels = Inr ev \<longrightarrow>
     (\<exists>row. rows ev = [row] \<and> shape0 ev = 1 \<and> shape1 ev = n \<and> length row = n \<and>
       (\<forall>j<n. (\<forall>k<length cue_pos. np_index n (cue_pos ! k) \<noteq> Inr j) \<longrightarrow> row ! j = 0) \<and>
       (\<forall>k j. k < length cue_pos \<and> np_index n (cue_pos ! k) = Inr j \<and>
            (\<forall>k'. k < k' \<and> k' < length cue_pos \<longrightarrow> np_index n (cue_pos ! k') \<noteq> Inr j) \<longrightarrow>
            row ! j = (if length labels = length cue_pos then labels ! k else hd labels)))) \<and>
   map_option (\<lambda>r. (shape1 (raw_data r), labeled_events r))
     (segment (assemble (scenario_train [100, 500, 900]) (scenario_test [1, 2, 0])) ''train'') =
     Some (900, 2) \<and>
   map_option (\<lambda>r. (shape1 (raw_data r), labeled_events r))
     (segment (assemble (scenario_train [100, 500, 900]) (scenario_test [1, 2, 0])) ''test'') =
     Some (100, 0)"
proof (intro conjI impI)
  assume "make_raw_event n cue_pos labels = Inr ev"
  then show "\<exists>row. rows ev = [row] \<and> shape0 ev = 1 \<and> shape1 ev = n \<and> length row = n \<and>
       (\<forall>j<n. (\<forall>k<length cue_pos. np_index n (cue_pos ! k) \<noteq> Inr j) \<longrightarrow> row ! j = 0) \<and>
       (\<forall>k j. k < length cue_pos \<and> np_index n (cue_pos ! k) = Inr j \<and>
            (\<forall>k'. k < k' \<and> k' < length cue_pos \<longrightarrow> np_index n (cue_pos ! k') \<noteq> Inr j) \<longrightarrow>
            row ! j = (if length labels = length cue_pos then labels ! k else hd labels))"
    by (rule make_raw_event_row)
next
  show "map_option (\<lambda>r. (shape1 (raw_data r), labeled_events r))
     (segment (assemble (scenario_train [100, 500, 900]) (scenario_test [1, 2, 0])) ''train'') =
     Some (900, 2)"
    using scenario_segments(1) [of 900 0] count_train
    by (auto simp: labeled_events_def)
next
  show "map_option (\<lambda>r. (shape1 (raw_data r), labeled_events r))
     (segment (assemble (scenario_train [100, 500, 900]) (scenario_test [1, 2, 0])) ''test'') =
     Some (100, 0)"
    using scenario_segments(2) [of 900 0] count_test0
    by (auto simp: labeled_events_def)
qed

theorem event_row_as_assigned_witness:
  "make_raw_event 4 [1, 3] [5, 7] = Inr \<lparr>shape0 = 1, shape1 = 4, rows = [[0, 5, 0, 7]]\<rparr> \<and>
   (\<exists>row. rows \<lparr>shape0 = 1, shape1 = 4, rows = [[0, 5, 0, 7]]\<rparr> = [row] \<and> length row = 4 \<and>
       (\<forall>j<4. (\<forall>k<length [1, 3 :: int]. np_index 4 ([1, 3] ! k) \<noteq> Inr j) \<longrightarrow> row ! j = 0) \<and>
       (\<forall>k j. k < length [1, 3 :: int] \<and> np_index 4 ([1, 3] ! k) = Inr j \<and>
            (\<forall>k'. k < k' \<and> k' < length [1, 3 :: int] \<longrightarrow> np_index 4 ([1, 3] ! k') \<noteq> Inr j) \<longrightarrow>
            row ! j = (if length [5, 7 :: real] = length [1, 3 :: int] then [5, 7] ! k else hd [5, 7])))"
proof -
  have v: "make_raw_event 4 [1, 3] [5, 7] = Inr \<lparr>shape0 = 1, shape1 = 4, rows = [[0, 5, 0, 7]]\<rparr>"
    by (simp add: make_raw_event_def np_setitem_cols_def np_broadcast_def np_index_def np_zeros_def
          numeral_eq_Suc)
  from event_row_as_assigned [of 4 "[1, 3]" "[5, 7]" "\<lparr>shape0 = 1, shape1 = 4, rows = [[0, 5, 0, 7]]\<rparr>"] v
  show ?thesis by blast
qed

text \<open>
  The same scenario with the label vector 1, 2, 2: the label of the third cue is copied into
  the event row like the others, and the test segment holds one labelled event.
\<close>

theorem test_segment_labeled_counterexample:
  "map_option labeled_events
     (segment (assemble (scenario_train [100, 500, 900]) (scenario_test [1, 2, 2])) ''test'') = Some 1"
  using scenario_segments(2) [of 900 2] count_test2
  by (auto simp: labeled_events_def)

section \<open>The two segments of the assembly\<close>

lemma wf_np_T: "wf_array a \<Longrightarrow> wf_array (np_T a)"
  by (simp add: wf_array_def np_T_def list_all_iff)

lemma RawArray_data: "RawArray d i = Inr r \<Longrightarrow> raw_data r = d"
  by (auto simp: RawArray_def split: if_splits)

text \<open>
  C3. Whenever the assembly of Dataset4a returns and its split position \<open>p\<close> lies in \<open>[0, N)\<close>,
  for a recording of \<open>N\<close> samples: the matrix that is cut is the recording with the event row
  below it, \<open>N\<close> samples wide; the returned train segment holds exactly \<open>p\<close> samples and the
  returned test segment exactly \<open>N - p\<close>, over the same channels; sample \<open>j\<close> of the matrix
  is sample \<open>j\<close> of the train segment when \<open>j < p\<close> and sample \<open>j - p\<close> of the test segment
  when \<open>p \<le> j\<close>, so no sample is in both; appending the test segment to the train segment,
  channel by channel, gives back the matrix in its order, and the two sample counts add up
  to \<open>N\<close>.
\<close>

theorem assemble_partition_complete:
  assumes a: "assemble train_data test_data = Inr out"
    and p: "split_sample_position train_data test_data = Inr p"
    and p0: "0 \<le> p" and pN: "p < int (shape0 (cnt train_data))"
    and wf: "wf_array (cnt train_data)"
  shows "\<exists>raw_event d raw_train raw_test.
      make_raw_event (shape0 (cnt train_data)) (mrk_pos train_data) (true_y test_data) = Inr raw_event \<and>
      np_concatenate0 (np_T (cnt train_data)) raw_event = Inr d \<and>
      wf_array d \<and> shape1 d = shape0 (cnt train_data) \<and> shape0 d = shape1 (cnt train_data) + 1 \<and>
      segment (Inr out) ''train'' = Some raw_train \<and>
      segment (Inr out) ''test'' = Some raw_test \<and>
      wf_array (raw_data raw_train) \<and> wf_array (raw_data raw_test) \<and>
      shape0 (raw_data raw_train) = shape0 d \<and> shape0 (raw_data raw_test) = shape0 d \<and>
      shape1 (raw_data raw_train) = nat p \<and>
      shape1 (raw_data raw_test) = shape0 (cnt train_data) - nat p \<and>
      shape1 (raw_data raw_train) + shape1 (raw_data raw_test) = shape0 (cnt train_data) \<and>
      map2 (@) (rows (raw_data raw_train)) (rows (raw_data raw_test)) = rows d \<and>
      (\<forall>i<shape0 d. \<forall>j<shape1 d.
          (j < nat p \<longrightarrow> rows (raw_data raw_train) ! i ! j = rows d ! i ! j) \<and>
          (nat p \<le> j \<longrightarrow> rows (raw_data raw_test) ! i ! (j - nat p) = rows d ! i ! j))"
proof -
  from a obtain info sep_pos raw_event d raw_train raw_test where
    sp: "split_sample_position train_data test_data = Inr sep_pos" and
    ev: "make_raw_event (shape0 (cnt train_data)) (mrk_pos train_data) (true_y test_data) = Inr raw_event" and
    cc: "np_concatenate0 (np_T (cnt train_data)) raw_event = Inr d" and
    rt: "RawArray (cols_before d sep_pos) info = Inr raw_train" and
    re: "RawArray (cols_from d sep_pos) info = Inr raw_test" and
    out: "out = [''session_1'' \<mapsto> [''train'' \<mapsto> raw_train, ''test'' \<mapsto> raw_test]]"
    by (rule assemble_Inr)
  from sp p have sep: "sep_pos = p" by simp
  from make_raw_event_row [OF ev] obtain row where
    row: "rows raw_event = [row]" "shape0 raw_event = 1" "shape1 raw_event = shape0 (cnt train_data)"
      "length row = shape0 (cnt train_data)"
    by blast
  from cc have d: "d = \<lparr>shape0 = shape1 (cnt train_data) + 1, shape1 = shape0 (cnt train_data),
      rows = rows (np_T (cnt train_data)) @ [row]\<rparr>"
    by (auto simp: np_concatenate0_def np_T_shape row split: if_splits)
  have wt: "wf_array (np_T (cnt train_data))" using wf by (rule wf_np_T)
  have wd: "wf_array d"
    using wt row(4) by (simp add: d wf_array_def np_T_shape)
  have sh: "shape1 d = shape0 (cnt train_data)" "shape0 d = shape1 (cnt train_data) + 1"
    by (simp_all add: d)
  have pd: "p < int (shape1 d)" using pN sh by simp
  have dt: "raw_data raw_train = cols_before d p" using rt sep by (simp add: RawArray_data)
  have de: "raw_data raw_test = cols_from d p" using re sep by (simp add: RawArray_data)
  have st: "segment (Inr out) ''train'' = Some raw_train"
    and se: "segment (Inr out) ''test'' = Some raw_test"
    by (simp_all add: segment_def out)
  note c = partition_at_columns [OF wd p0 pd, unfolded partition_at_def Let_def split_conv]
  show ?thesis
    apply (rule exI [of _ raw_event], rule exI [of _ d])
    apply (rule exI [of _ raw_train], rule exI [of _ raw_test])
    using ev cc wd sh st se c
    by (simp add: dt de)
qed

theorem assemble_partition_complete_witness:
  "\<not> isl (assemble (scenario_train [100, 500, 900]) (scenario_test [1, 2, 0])) \<and>
   split_sample_position (scenario_train [100, 500, 900]) (scenario_test [1, 2, 0]) = Inr 900 \<and>
   wf_array (cnt (scenario_train [100, 500, 900])) \<and>
   shape0 (cnt (scenario_train [100, 500, 900])) = 1000 \<and>
   (\<exists>raw_train raw_test.
      segment (assemble (scenario_train [100, 500, 900]) (scenario_test [1, 2, 0])) ''train'' = Some raw_train \<and>
      segment (assemble (scenario_train [100, 500, 900]) (scenario_test [1, 2, 0])) ''test'' = Some raw_test \<and>
      shape0 (raw_data raw_train) = 119 \<and> shape0 (raw_data raw_test) = 119 \<and>
      shape1 (raw_data raw_train) = 900 \<and> shape1 (raw_data raw_test) = 100 \<and>
      shape1 (raw_data raw_train) + shape1 (raw_data raw_test) = 1000)"
proof -
  let ?tr = "scenario_train [100, 500, 900]" and ?te = "scenario_test [1, 2, 0]"
  have ok: "\<not> isl (assemble ?tr ?te)"
    using scenario_succeeds [of 900 0] by simp
  then have a: "assemble ?tr ?te = Inr (projr (assemble ?tr ?te))" by simp
  have p: "split_sample_position ?tr ?te = Inr 900" by (rule scenario_split)
  have N: "shape0 (cnt ?tr) = 1000" and C: "shape1 (cnt ?tr) = 118"
    by (simp_all add: scenario_train_def np_zeros_def)
  have wf: "wf_array (cnt ?tr)"
    by (simp add: scenario_train_def np_zeros_def wf_array_def list_all_iff)
  have p0: "(0::int) \<le> 900" by simp
  have pN: "(900::int) < int (shape0 (cnt ?tr))" unfolding N by simp
  have "\<exists>raw_train raw_test.
      segment (assemble ?tr ?te) ''train'' = Some raw_train \<and>
      segment (assemble ?tr ?te) ''test'' = Some raw_test \<and>
      shape0 (raw_data raw_train) = 119 \<and> shape0 (raw_data raw_test) = 119 \<and>
      shape1 (raw_data raw_train) = 900 \<and> shape1 (raw_data raw_test) = 100 \<and>
      shape1 (raw_data raw_train) + shape1 (raw_data raw_test) = 1000"
    using assemble_partition_complete [OF a p p0 pN wf]
  proof (elim exE conjE)
    fix raw_event d raw_train raw_test
    assume d: "shape0 d = shape1 (cnt ?tr) + 1"
      and st: "segment (Inr (projr (assemble ?tr ?te))) ''train'' = Some raw_train"
      and se: "segment (Inr (projr (assemble ?tr ?te))) ''test'' = Some raw_test"
      and s0: "shape0 (raw_data raw_train) = shape0 d" "shape0 (raw_data raw_test) = shape0 d"
      and s1: "shape1 (raw_data raw_train) = nat 900"
        "shape1 (raw_data raw_test) = shape0 (cnt ?tr) - nat 900"
        "shape1 (raw_data raw_train) + shape1 (raw_data raw_test) = shape0 (cnt ?tr)"
    from st se have st': "segment (assemble ?tr ?te) ''train'' = Some raw_train"
      and se': "segment (assemble ?tr ?te) ''test'' = Some raw_test"
      unfolding a [symmetric] by simp_all
    have q: "shape0 (raw_data raw_train) = 119" "shape0 (raw_data raw_test) = 119"
      "shape1 (raw_data raw_train) = 900" "shape1 (raw_data raw_test) = 100"
      "shape1 (raw_data raw_train) + shape1 (raw_data raw_test) = 1000"
      using s0 s1 d unfolding N C by simp_all
    from st' se' q show ?thesis by (intro exI conjI)
  qed
  with ok p wf N show ?thesis by (intro conjI)
qed

section \<open>Properties of the download loop\<close>

lemma file_write_clock:
  "file_write p chunk w = (r, w2) \<Longrightarrow>
     now w2 = now w \<and> ticks w2 = ticks w \<and> fsub w2 = fsub w \<and> size_trace w2 = size_trace w"
  by (auto simp: file_write_def log_io_def Let_def split: if_splits)

lemma adapt_sequence: "chunk_size_sequence cs (dt # dts) = adapt cs dt # chunk_size_sequence (adapt cs dt) dts"
  by (simp add: adapt_def mult.commute)

lemma write_chunks_sizes:
  "write_chunks tmp items cs t0 w = (r, sizes, w') \<Longrightarrow>
     sizes = chunk_size_sequence cs (latencies (fsub w) (now w) (ticks w) t0 (length sizes)) \<and>
     length sizes \<le> received items \<and> (\<not> isl r \<longrightarrow> length sizes = received items) \<and>
     size_trace w' = size_trace w"
proof (induction items arbitrary: cs t0 w r sizes w')
  case Nil
  then show ?case by simp
next
  case (Cons item rest)
  show ?case
  proof (cases item)
    case Broken
    with Cons.prems show ?thesis by auto
  next
    case (Chunk chunk)
    let ?w1 = "w\<lparr>ticks := ticks w + 1\<rparr>"
    let ?dt = "fsub w (now w (ticks w)) t0"
    let ?c1 = "adapt cs ?dt"
    show ?thesis
    proof (cases "chunk = []")
      case True
      with Cons.prems Chunk have "sizes = [?c1]" "w' = ?w1"
        by (simp_all add: time_time_def Let_def)
      then show ?thesis
        using Chunk True by (simp add: adapt_sequence del: chunk_size_sequence.simps(2))
    next
      case False
      obtain rw w2 where fw: "file_write tmp chunk ?w1 = (rw, w2)"
        by (cases "file_write tmp chunk ?w1")
      note clk = file_write_clock [OF fw]
      show ?thesis
      proof (cases rw)
        case (Inl e)
        with Cons.prems Chunk False fw have "sizes = [?c1]" "w' = w2" "r = Inl e"
          by (simp_all add: time_time_def Let_def)
        then show ?thesis
          using Chunk False clk by (simp add: adapt_sequence del: chunk_size_sequence.simps(2))
      next
        case (Inr u)
        let ?w3 = "w2\<lparr>ticks := ticks w2 + 1\<rparr>"
        let ?t1 = "now w2 (ticks w2)"
        obtain r' sizes' w4 where rec: "write_chunks tmp rest ?c1 ?t1 ?w3 = (r', sizes', w4)"
          by (cases "write_chunks tmp rest ?c1 ?t1 ?w3") auto
        with Cons.prems Chunk False fw Inr have s: "sizes = ?c1 # sizes'" "w' = w4" "r = r'"
          by (simp_all add: time_time_def Let_def)
        from Cons.IH [OF rec]
        have "sizes' = chunk_size_sequence ?c1
                (latencies (fsub ?w3) (now ?w3) (ticks ?w3) ?t1 (length sizes')) \<and>
              length sizes' \<le> received rest \<and> (\<not> isl r' \<longrightarrow> length sizes' = received rest) \<and>
              size_trace w4 = size_trace ?w3" .
        then show ?thesis
          using s clk Chunk False by (simp add: adapt_sequence del: chunk_size_sequence.simps(2))
      qed
    qed
  qed
qed

lemma chunk_size_sequence_floor:
  "\<exists>k. cs = 8192 * 2 ^ k \<Longrightarrow> \<forall>s\<in>set (chunk_size_sequence cs dts). \<exists>k. s = 8192 * 2 ^ k"
proof (induction dts arbitrary: cs)
  case Nil
  then show ?case by simp
next
  case (Cons dt dts)
  then obtain k where k: "cs = 8192 * 2 ^ k" by blast
  have dbl: "\<exists>j. 2 * cs = 8192 * 2 ^ j"
    using k by (intro exI [of _ "Suc k"]) simp
  have hlv: "\<exists>j. cs div 2 = 8192 * 2 ^ j" if "8192 < cs"
  proof -
    from that k have "k \<noteq> 0" by (cases k) auto
    then obtain m where "k = Suc m" by (cases k) auto
    with k show ?thesis by (intro exI [of _ m]) simp
  qed
  show ?case
    using Cons.IH [OF dbl] Cons.IH [OF hlv] Cons.IH [OF Cons.prems] dbl hlv Cons.prems
    by auto
qed

lemma chunk_size_sequence_from_8192: "\<forall>s\<in>set (chunk_size_sequence 8192 dts). 8192 \<le> s"
proof -
  have "\<exists>k. (8192::int) = 8192 * 2 ^ k" by (intro exI [of _ 0]) simp
  from chunk_size_sequence_floor [OF this, of dts] show ?thesis by auto
qed

lemma record_sizes_fields [simp]:
  "files (record_sizes sizes w) = files w"
  "fsize_limit (record_sizes sizes w) = fsize_limit w"
  "io_log (record_sizes sizes w) = io_log w"
  "now (record_sizes sizes w) = now w"
  "ticks (record_sizes sizes w) = ticks w"
  "fsub (record_sizes sizes w) = fsub w"
  "net (record_sizes sizes w) = net w"
  "dirs (record_sizes sizes w) = dirs w"
  "size_trace (record_sizes sizes w) = size_trace w @ sizes"
  by (simp_all add: record_sizes_def)

lemma shutil_move_trace: "size_trace (snd (shutil_move a b w)) = size_trace w"
  by (simp add: shutil_move_def log_io_def Let_def split: option.splits)

lemma download_file_sizes:
  assumes df: "download_file destination response w = (res, w')"
    and pl: "parsed_length response \<noteq> None"
  shows "\<exists>sizes. size_trace w' = size_trace w @ sizes \<and>
      sizes = chunk_size_sequence 8192
        (latencies (fsub w) (now w) (Suc (ticks w)) (now w (ticks w)) (length sizes)) \<and>
      length sizes \<le> received (iter_content response 8192) \<and>
      (\<not> isl res \<longrightarrow> length sizes = received (iter_content response 8192)) \<and>
      (\<forall>s\<in>set sizes. 8192 \<le> s)"
proof -
  let ?tmp = "destination @ ''.part''"
  let ?w1 = "open_wb ?tmp w"
  let ?w2 = "?w1\<lparr>ticks := ticks ?w1 + 1\<rparr>"
  let ?t0 = "now ?w1 (ticks ?w1)"
  from pl obtain n where Some: "parsed_length response = Some n" by auto
  obtain r sizes w3 where wc: "write_chunks ?tmp (iter_content response 8192) 8192 ?t0 ?w2 = (r, sizes, w3)"
    by (cases "write_chunks ?tmp (iter_content response 8192) 8192 ?t0 ?w2") auto
  have o: "fsub ?w2 = fsub w" "now ?w2 = now w" "ticks ?w2 = Suc (ticks w)" "?t0 = now w (ticks w)"
    "size_trace ?w2 = size_trace w"
    by (simp_all add: open_wb_def log_io_def)
  from write_chunks_sizes [OF wc]
  have s: "sizes = chunk_size_sequence 8192
        (latencies (fsub w) (now w) (Suc (ticks w)) (now w (ticks w)) (length sizes))"
    and l: "length sizes \<le> received (iter_content response 8192)"
    and e: "\<not> isl r \<longrightarrow> length sizes = received (iter_content response 8192)"
    and t: "size_trace w3 = size_trace w"
    unfolding o by simp_all
  have fl: "\<forall>s\<in>set sizes. 8192 \<le> s"
    by (subst s) (rule chunk_size_sequence_from_8192)
  have tr: "size_trace w' = size_trace w @ sizes" and rs: "\<not> isl res \<longrightarrow> \<not> isl r"
  proof -
    show "size_trace w' = size_trace w @ sizes"
    proof (cases r)
      case (Inl e')
      with df Some wc have "w' = record_sizes sizes w3"
        by (simp add: download_file_def Let_def time_time_def)
      with t show ?thesis by simp
    next
      case (Inr u)
      with df Some wc have "w' = snd (shutil_move ?tmp destination (record_sizes sizes w3))"
        by (auto simp: download_file_def Let_def time_time_def split: prod.splits sum.splits)
      with t show ?thesis by (simp add: shutil_move_trace)
    qed
    show "\<not> isl res \<longrightarrow> \<not> isl r"
      using df Some wc
      by (cases r) (auto simp: download_file_def Let_def time_time_def split: prod.splits sum.splits)
  qed
  from tr s l e rs fl show ?thesis by blast
qed

lemma clock_demo_lat:
  "latencies (fsub (clock_world [0, float64_0_005, 0, float64_0_005, 0, float64_0_2, 0]))
     (now (clock_world [0, float64_0_005, 0, float64_0_005, 0, float64_0_2, 0]))
     (Suc (ticks (clock_world [0, float64_0_005, 0, float64_0_005, 0, float64_0_2, 0])))
     (now (clock_world [0, float64_0_005, 0, float64_0_005, 0, float64_0_2, 0])
        (ticks (clock_world [0, float64_0_005, 0, float64_0_005, 0, float64_0_2, 0]))) 3 =
   [float64_0_005, float64_0_005, float64_0_2]"
  by (simp add: clock_world_def numeral_3_eq_3)

lemma clock_demo:
  "size_trace (snd (download_file ''f''
      \<lparr>parsed_length = Some 3, iter_content = (\<lambda>n. [Chunk ''a'', Chunk ''b'', Chunk ''c''])\<rparr>
      (clock_world [0, float64_0_005, 0, float64_0_005, 0, float64_0_2, 0]))) = [16384, 32768, 16384]"
  by (simp add: download_file_def clock_world_def open_wb_def time_time_def file_write_def log_io_def
        shutil_move_def record_sizes_def adapt_def Let_def
        float64_0_005_def float64_0_2_def float64_0_01_def float64_0_1_def)

lemma clock_demo_ok:
  "\<not> isl (fst (download_file ''f''
      \<lparr>parsed_length = Some 3, iter_content = (\<lambda>n. [Chunk ''a'', Chunk ''b'', Chunk ''c''])\<rparr>
      (clock_world [0, float64_0_005, 0, float64_0_005, 0, float64_0_2, 0])))"
  by (simp add: download_file_def clock_world_def open_wb_def time_time_def file_write_def log_io_def
        shutil_move_def record_sizes_def adapt_def Let_def
        float64_0_005_def float64_0_2_def float64_0_01_def float64_0_1_def)

text \<open>
  C4. \<open>download_file\<close> starts its loop with \<open>chunk_size = 8192\<close>. The values the variable
  takes during one call, one per item received from the stream, are those of the rule run from
  8192 over the latencies the loop measures (each the float64 difference of the clock reading
  on arrival and the reading after the previous write): doubled when \<open>dt < 0.01\<close>, halved when
  \<open>dt > 0.1\<close> and the size is above 8192, unchanged otherwise, the two bounds being the float64
  values of the literals. None of the values is below 8192; there is one for every item
  received when the call returns, and no more than that when it fails. On a machine whose
  clock gives the latencies 0.005, 0.005 and 0.2 (as float64 values) a download of three chunks
  takes the sizes 16384, 32768, 16384.
\<close>

theorem chunk_size_adaptation:
  "(download_file destination response w = (res, w') \<and> parsed_length response \<noteq> None \<longrightarrow>
      (\<exists>sizes. size_trace w' = size_trace w @ sizes \<and>
         sizes = chunk_size_sequence 8192
           (latencies (fsub w) (now w) (Suc (ticks w)) (now w (ticks w)) (length sizes)) \<and>
         length sizes \<le> received (iter_content response 8192) \<and>
         (\<not> isl res \<longrightarrow> length sizes = received (iter_content response 8192)) \<and>
         (\<forall>s\<in>set sizes. 8192 \<le> s))) \<and>
   latencies (fsub (clock_world [0, float64_0_005, 0, float64_0_005, 0, float64_0_2, 0]))
     (now (clock_world [0, float64_0_005, 0, float64_0_005, 0, float64_0_2, 0]))
     (Suc (ticks (clock_world [0, float64_0_005, 0, float64_0_005, 0, float64_0_2, 0])))
     (now (clock_world [0, float64_0_005, 0, float64_0_005, 0, float64_0_2, 0])
        (ticks (clock_world [0, float64_0_005, 0, float64_0_005, 0, float64_0_2, 0]))) 3 =
     [float64_0_005, float64_0_005, float64_0_2] \<and>
   size_trace (snd (download_file ''f''
      \<lparr>parsed_length = Some 3, iter_content = (\<lambda>n. [Chunk ''a'', Chunk ''b'', Chunk ''c''])\<rparr>
      (clock_world [0, float64_0_005, 0, float64_0_005, 0, float64_0_2, 0]))) = [16384, 32768, 16384]"
proof (intro conjI impI)
  assume "download_file destination response w = (res, w') \<and> parsed_length response \<noteq> None"
  then have df: "download_file destination response w = (res, w')"
    and pl: "parsed_length response \<noteq> None" by simp_all
  from download_file_sizes [OF df pl]
  show "\<exists>sizes. size_trace w' = size_trace w @ sizes \<and>
         sizes = chunk_size_sequence 8192
           (latencies (fsub w) (now w) (Suc (ticks w)) (now w (ticks w)) (length sizes)) \<and>
         length sizes \<le> received (iter_content response 8192) \<and>
         (\<not> isl res \<longrightarrow> length sizes = received (iter_content response 8192)) \<and>
         (\<forall>s\<in>set sizes. 8192 \<le> s)" .
next
  show "latencies (fsub (clock_world [0, float64_0_005, 0, float64_0_005, 0, float64_0_2, 0]))
     (now (clock_world [0, float64_0_005, 0, float64_0_005, 0, float64_0_2, 0]))
     (Suc (ticks (clock_world [0, float64_0_005, 0, float64_0_005, 0, float64_0_2, 0])))
     (now (clock_world [0, float64_0_005, 0, float64_0_005, 0, float64_0_2, 0])
        (ticks (clock_world [0, float64_0_005, 0, float64_0_005, 0, float64_0_2, 0]))) 3 =
     [float64_0_005, float64_0_005, float64_0_2]"
    by (rule clock_demo_lat)
next
  show "size_trace (snd (download_file ''f''
      \<lparr>parsed_length = Some 3, iter_content = (\<lambda>n. [Chunk ''a'', Chunk ''b'', Chunk ''c''])\<rparr>
      (clock_world [0, float64_0_005, 0, float64_0_005, 0, float64_0_2, 0]))) = [16384, 32768, 16384]"
    by (rule clock_demo)
qed

theorem chunk_size_adaptation_witness:
  "(let W = clock_world [0, float64_0_005, 0, float64_0_005, 0, float64_0_2, 0];
        R = \<lparr>parsed_length = Some 3, iter_content = (\<lambda>n. [Chunk ''a'', Chunk ''b'', Chunk ''c''])\<rparr>;
        X = download_file ''f'' R W
    in parsed_length R \<noteq> None \<and> \<not> isl (fst X) \<and>
       received (iter_content R 8192) = 3 \<and>
       size_trace (snd X) = chunk_size_sequence 8192 [float64_0_005, float64_0_005, float64_0_2] \<and>
       size_trace (snd X) = [16384, 32768, 16384] \<and>
       (\<forall>s\<in>set (size_trace (snd X)). 8192 \<le> s))"
proof -
  let ?W = "clock_world [0, float64_0_005, 0, float64_0_005, 0, float64_0_2, 0]"
  let ?R = "\<lparr>parsed_length = Some 3, iter_content = (\<lambda>n. [Chunk ''a'', Chunk ''b'', Chunk ''c''])\<rparr>"
  let ?X = "download_file ''f'' ?R ?W"
  have x: "?X = (fst ?X, snd ?X)" by simp
  have pl: "parsed_length ?R \<noteq> None" by simp
  have ok: "\<not> isl (fst ?X)" by (rule clock_demo_ok)
  have rc: "received (iter_content ?R 8192) = 3" by simp
  have e: "size_trace ?W = []" by (simp add: clock_world_def)
  note t = chunk_size_adaptation [of "''f''" ?R ?W "fst ?X" "snd ?X"]
  from t x pl obtain sizes where
    tr: "size_trace (snd ?X) = size_trace ?W @ sizes"
    and sq: "sizes = chunk_size_sequence 8192
           (latencies (fsub ?W) (now ?W) (Suc (ticks ?W)) (now ?W (ticks ?W)) (length sizes))"
    and ln: "\<not> isl (fst ?X) \<longrightarrow> length sizes = received (iter_content ?R 8192)"
    and fl: "\<forall>s\<in>set sizes. 8192 \<le> s"
    by blast
  from t have lat: "latencies (fsub ?W) (now ?W) (Suc (ticks ?W)) (now ?W (ticks ?W)) 3 =
     [float64_0_005, float64_0_005, float64_0_2]" by blast
  from t have ex: "size_trace (snd ?X) = [16384, 32768, 16384]" by blast
  from tr e have s: "sizes = size_trace (snd ?X)" by simp
  from ln ok rc have l3: "length sizes = 3" by simp
  from sq have "sizes = chunk_size_sequence 8192 [float64_0_005, float64_0_005, float64_0_2]"
    unfolding l3 lat .
  with s have a: "size_trace (snd ?X) = chunk_size_sequence 8192 [float64_0_005, float64_0_005, float64_0_2]"
    by simp
  from fl s have b: "\<forall>s\<in>set (size_trace (snd ?X)). 8192 \<le> s" by simp
  from pl ok rc a ex b show ?thesis unfolding Let_def by blast
qed

section \<open>Properties of download_file\<close>

lemma file_write_files:
  "file_write p chunk w = (r, w2) \<Longrightarrow>
     (\<forall>q. q \<noteq> p \<longrightarrow> files w2 q = files w q) \<and> (p \<in> dom (files w) \<longrightarrow> p \<in> dom (files w2))"
  by (auto simp: file_write_def log_io_def Let_def split: if_splits)

lemma write_chunks_files:
  "write_chunks tmp items cs t0 w = (r, sizes, w') \<Longrightarrow>
     (\<forall>q. q \<noteq> tmp \<longrightarrow> files w' q = files w q) \<and> (tmp \<in> dom (files w) \<longrightarrow> tmp \<in> dom (files w'))"
proof (induction items arbitrary: cs t0 w r sizes w')
  case Nil
  then show ?case by simp
next
  case (Cons item rest)
  show ?case
  proof (cases item)
    case Broken
    with Cons.prems show ?thesis by simp
  next
    case (Chunk chunk)
    let ?w1 = "w\<lparr>ticks := ticks w + 1\<rparr>"
    let ?c1 = "adapt cs (fsub w (now w (ticks w)) t0)"
    show ?thesis
    proof (cases "chunk = []")
      case True
      with Cons.prems Chunk have "w' = ?w1"
        by (simp add: time_time_def Let_def)
      then show ?thesis by simp
    next
      case False
      obtain rw w2 where fw: "file_write tmp chunk ?w1 = (rw, w2)"
        by (cases "file_write tmp chunk ?w1")
      note f = file_write_files [OF fw]
      show ?thesis
      proof (cases rw)
        case (Inl e)
        with Cons.prems Chunk False fw have "w' = w2"
          by (simp add: time_time_def Let_def)
        with f show ?thesis by simp
      next
        case (Inr u)
        let ?w3 = "w2\<lparr>ticks := ticks w2 + 1\<rparr>"
        let ?t1 = "now w2 (ticks w2)"
        obtain r' sizes' w4 where rec: "write_chunks tmp rest ?c1 ?t1 ?w3 = (r', sizes', w4)"
          by (cases "write_chunks tmp rest ?c1 ?t1 ?w3") auto
        with Cons.prems Chunk False fw Inr have s: "w' = w4"
          by (simp add: time_time_def Let_def)
        from Cons.IH [OF rec] f s show ?thesis by simp
      qed
    qed
  qed
qed

lemma part_neq: "destination @ ''.part'' \<noteq> destination"
proof
  assume "destination @ ''.part'' = destination"
  then have "length (destination @ ''.part'') = length destination" by simp
  then show False by simp
qed

lemma download_file_error:
  assumes "download_file destination response w = (Inl e, w')"
  shows "files w' destination = files w destination"
    and "parsed_length response \<noteq> None \<Longrightarrow> destination @ ''.part'' \<in> dom (files w')"
proof -
  let ?tmp = "destination @ ''.part''"
  let ?w1 = "open_wb ?tmp w"
  let ?w2 = "?w1\<lparr>ticks := ticks ?w1 + 1\<rparr>"
  let ?t0 = "now ?w1 (ticks ?w1)"
  obtain r sizes w3 where wc: "write_chunks ?tmp (iter_content response 8192) 8192 ?t0 ?w2 = (r, sizes, w3)"
    by (cases "write_chunks ?tmp (iter_content response 8192) 8192 ?t0 ?w2") auto
  note f = write_chunks_files [OF wc]
  have o: "files ?w2 destination = files w destination" "?tmp \<in> dom (files ?w2)"
    using part_neq [of destination] by (auto simp: open_wb_def log_io_def)
  show "files w' destination = files w destination"
  proof (cases "parsed_length response")
    case None
    with assms show ?thesis by (simp add: download_file_def)
  next
    case (Some n)
    show ?thesis
    proof (cases r)
      case (Inl e')
      with assms Some wc have "w' = record_sizes sizes w3"
        by (auto simp: download_file_def Let_def time_time_def)
      with f o part_neq [of destination] show ?thesis by auto
    next
      case (Inr u)
      with f o have "files w3 ?tmp \<noteq> None" by auto
      with assms Some wc Inr show ?thesis
        by (auto simp: download_file_def Let_def time_time_def shutil_move_def split: option.splits)
    qed
  qed
  show "destination @ ''.part'' \<in> dom (files w')" if "parsed_length response \<noteq> None"
  proof -
    from that obtain n where Some: "parsed_length response = Some n" by auto
    show ?thesis
    proof (cases r)
      case (Inl e')
      with assms Some wc have "w' = record_sizes sizes w3"
        by (auto simp: download_file_def Let_def time_time_def)
      with f o show ?thesis by auto
    next
      case (Inr u)
      with f o have "files w3 ?tmp \<noteq> None" by auto
      with assms Some wc Inr show ?thesis
        by (auto simp: download_file_def Let_def time_time_def shutil_move_def split: option.splits)
    qed
  qed
qed

lemma download_file_success:
  assumes "download_file destination response w = (Inr p, w')"
  shows "p = destination \<and> destination \<in> dom (files w') \<and> destination @ ''.part'' \<notin> dom (files w') \<and>
         (\<forall>q. q \<noteq> destination \<and> q \<noteq> destination @ ''.part'' \<longrightarrow> files w' q = files w q)"
proof -
  let ?tmp = "destination @ ''.part''"
  let ?w1 = "open_wb ?tmp w"
  let ?w2 = "?w1\<lparr>ticks := ticks ?w1 + 1\<rparr>"
  let ?t0 = "now ?w1 (ticks ?w1)"
  obtain r sizes w3 where wc: "write_chunks ?tmp (iter_content response 8192) 8192 ?t0 ?w2 = (r, sizes, w3)"
    by (cases "write_chunks ?tmp (iter_content response 8192) 8192 ?t0 ?w2") auto
  note f = write_chunks_files [OF wc]
  have o: "\<forall>q. q \<noteq> ?tmp \<longrightarrow> files ?w2 q = files w q" "?tmp \<in> dom (files ?w2)"
    by (auto simp: open_wb_def log_io_def)
  from assms obtain n where Some: "parsed_length response = Some n"
    by (cases "parsed_length response") (auto simp: download_file_def)
  from assms Some wc obtain u where Inr: "r = Inr u"
    by (cases r) (auto simp: download_file_def Let_def time_time_def)
  from f o obtain c where c: "files w3 ?tmp = Some c" by auto
  from assms Some wc Inr c have p: "p = destination"
    and w': "files w' = ((files w3)(?tmp := None))(destination \<mapsto> c)"
    by (auto simp: download_file_def Let_def time_time_def shutil_move_def log_io_def record_sizes_def)
  from w' f o part_neq [of destination] p show ?thesis by auto
qed

lemma download_test_error:
  assumes "download_test ev subject sign w = (Inl e, w')"
  shows "create_destination ev (test_url subject) sign
           \<notin> dom (files w')"
proof -
  let ?url = "test_url subject"
  let ?d = "create_destination ev ?url sign"
  let ?w1 = "log_io (IsFile ?d) w"
  let ?rq = "\<lparr>req_url = ?url, req_auth = None, req_timeout = 30, req_verify = False\<rparr>"
  let ?w2 = "log_io (HttpGet ?rq) ?w1"
  from assms have absent: "?d \<notin> dom (files w)"
    by (auto simp: download_test_def Let_def op_isfile_def split: if_splits)
  then have a2: "files ?w2 ?d = None" by (auto simp: log_io_def)
  show ?thesis
  proof (cases "net ?w1 ?rq")
    case (Inl e')
    with assms absent have "w' = ?w2"
      by (auto simp: download_test_def Let_def op_isfile_def requests_get_def)
    with a2 show ?thesis by auto
  next
    case (Inr response)
    obtain r w3 where df: "download_file ?d response ?w2 = (r, w3)"
      by (cases "download_file ?d response ?w2")
    with assms absent Inr obtain e' where "r = Inl e'" "w' = w3"
      by (cases r) (auto simp: download_test_def Let_def op_isfile_def requests_get_def)
    with df download_file_error(1) [of ?d response ?w2 e' w3] a2 show ?thesis by auto
  qed
qed

lemma demo_interrupted:
  "download_file ''d'' \<lparr>parsed_length = Some 6, iter_content = (\<lambda>n. [Chunk ''abc'', Broken])\<rparr>
     (serving_world []) =
   (Inl ConnectionError,
    (serving_world [])\<lparr>files := [''d.part'' \<mapsto> ''abc''], ticks := 3,
       io_log := [OpenWrite ''d.part'', Write ''d.part'' 3], size_trace := [16384]\<rparr>)"
  by (simp add: download_file_def serving_world_def open_wb_def log_io_def time_time_def
        file_write_def Let_def record_sizes_def adapt_def float64_0_01_def)

lemma demo_complete:
  "download_file ''d'' \<lparr>parsed_length = Some 6, iter_content = (\<lambda>n. [Chunk ''abc'', Chunk ''def''])\<rparr>
     (serving_world []) =
   (Inr ''d'',
    (serving_world [])\<lparr>files := [''d'' \<mapsto> ''abcdef''], ticks := 5,
       io_log := [OpenWrite ''d.part'', Write ''d.part'' 3, Write ''d.part'' 3, Move ''d.part'' ''d''],
       size_trace := [16384, 32768]\<rparr>)"
  by (simp add: download_file_def serving_world_def open_wb_def log_io_def time_time_def
        file_write_def shutil_move_def Let_def fun_upd_twist record_sizes_def adapt_def float64_0_01_def)

lemma demo_test_interrupted:
  "fst (download_test (demo_env [] [] [] (demo_recording [])) ''aa'' ''BCIComp''
          (serving_world [Chunk ''abc'', Broken])) = Inl ConnectionError"
  by (simp add: download_test_def demo_env_def serving_world_def op_isfile_def requests_get_def
        download_file_def open_wb_def log_io_def time_time_def file_write_def Let_def
        record_sizes_def adapt_def float64_0_01_def)

text \<open>
  C5. When \<open>download_file\<close> fails, whether the connection breaks or a write fails before the
  stream ends, the destination path is left as it was: if no file was there before, none is
  there afterwards, and the temporary file \<open>destination + ".part"\<close> is on disk (whenever the
  transfer had started, that is the length header was readable). Only when \<open>download_file\<close>
  returns is the temporary file gone and the destination in place. Seen from \<open>download_test\<close>,
  which downloads only to an absent destination: whenever it fails, no file is at the
  destination.
\<close>

theorem interrupted_download_leaves_part_only:
  "(download_file destination response w = (Inl e, w') \<longrightarrow>
      files w' destination = files w destination \<and>
      (destination \<notin> dom (files w) \<longrightarrow> destination \<notin> dom (files w')) \<and>
      (parsed_length response \<noteq> None \<longrightarrow> destination @ ''.part'' \<in> dom (files w'))) \<and>
   (download_file destination response w = (Inr p, w2) \<longrightarrow>
      p = destination \<and> destination \<in> dom (files w2) \<and> destination @ ''.part'' \<notin> dom (files w2)) \<and>
   (download_test ev subject sign w = (Inl e1, w3) \<longrightarrow>
      create_destination ev (test_url subject) sign
        \<notin> dom (files w3))"
proof (intro conjI impI)
  assume a: "download_file destination response w = (Inl e, w')"
  show f: "files w' destination = files w destination"
    using a by (rule download_file_error(1))
  show "destination \<notin> dom (files w')" if "destination \<notin> dom (files w)"
    using that f by (auto simp: dom_def)
  show "destination @ ''.part'' \<in> dom (files w')" if "parsed_length response \<noteq> None"
    using a that by (rule download_file_error(2))
next
  assume "download_file destination response w = (Inr p, w2)"
  from download_file_success [OF this]
  show "p = destination" "destination \<in> dom (files w2)" "destination @ ''.part'' \<notin> dom (files w2)"
    by simp_all
next
  assume "download_test ev subject sign w = (Inl e1, w3)"
  then show "create_destination ev (test_url subject) sign
        \<notin> dom (files w3)"
    by (rule download_test_error)
qed

theorem interrupted_download_leaves_part_only_witness:
  "(let X = download_file ''d'' \<lparr>parsed_length = Some 6, iter_content = (\<lambda>n. [Chunk ''abc'', Broken])\<rparr>
              (serving_world [])
    in fst X = Inl ConnectionError \<and> ''d'' \<notin> dom (files (snd X)) \<and> ''d.part'' \<in> dom (files (snd X))) \<and>
   (let Y = download_file ''d'' \<lparr>parsed_length = Some 6, iter_content = (\<lambda>n. [Chunk ''abc'', Chunk ''def''])\<rparr>
              (serving_world [])
    in fst Y = Inr ''d'' \<and> ''d'' \<in> dom (files (snd Y)) \<and> ''d.part'' \<notin> dom (files (snd Y))) \<and>
   (let Z = download_test (demo_env [] [] [] (demo_recording [])) ''aa'' ''BCIComp''
              (serving_world [Chunk ''abc'', Broken])
    in fst Z = Inl ConnectionError \<and>
       create_destination (demo_env [] [] [] (demo_recording [])) (test_url ''aa'') ''BCIComp''
         \<notin> dom (files (snd Z)))"
proof -
  let ?R1 = "\<lparr>parsed_length = Some 6, iter_content = (\<lambda>n. [Chunk ''abc'', Broken])\<rparr>"
  let ?R2 = "\<lparr>parsed_length = Some 6, iter_content = (\<lambda>n. [Chunk ''abc'', Chunk ''def''])\<rparr>"
  let ?X = "download_file ''d'' ?R1 (serving_world [])"
  let ?Y = "download_file ''d'' ?R2 (serving_world [])"
  let ?E = "demo_env [] [] [] (demo_recording [])"
  let ?Z = "download_test ?E ''aa'' ''BCIComp'' (serving_world [Chunk ''abc'', Broken])"
  have x: "?X = (Inl ConnectionError, snd ?X)" by (simp add: demo_interrupted)
  have y: "?Y = (Inr ''d'', snd ?Y)" by (simp add: demo_complete)
  have z: "?Z = (Inl ConnectionError, snd ?Z)"
    using demo_test_interrupted by (simp add: prod_eq_iff)
  have e: "''d'' \<notin> dom (files (serving_world []))" by (simp add: serving_world_def)
  have pl: "parsed_length ?R1 \<noteq> None" by simp
  note t1 = interrupted_download_leaves_part_only
      [of "''d''" ?R1 "serving_world []" ConnectionError "snd ?X" "''d''" "snd ?Y" ?E "''aa''" "''BCIComp''"
        ConnectionError "snd ?Z"]
  note t2 = interrupted_download_leaves_part_only
      [of "''d''" ?R2 "serving_world []" ConnectionError "snd ?X" "''d''" "snd ?Y" ?E "''aa''" "''BCIComp''"
        ConnectionError "snd ?Z"]
  from t1 x e pl have a: "''d'' \<notin> dom (files (snd ?X))" "''d'' @ ''.part'' \<in> dom (files (snd ?X))"
    by blast+
  from t2 y have b: "''d'' \<in> dom (files (snd ?Y))" "''d'' @ ''.part'' \<notin> dom (files (snd ?Y))"
    by blast+
  note t3 = interrupted_download_leaves_part_only
      [of "''d''" ?R1 "serving_world [Chunk ''abc'', Broken]" ConnectionError "snd ?X" "''d''" "snd ?Y"
        ?E "''aa''" "''BCIComp''" ConnectionError "snd ?Z"]
  from t3 z have c: "create_destination ?E (test_url ''aa'') ''BCIComp'' \<notin> dom (files (snd ?Z))"
    by blast
  from x y z a b c show ?thesis
    unfolding Let_def by (simp add: prod_eq_iff)
qed

section \<open>The adaptive download against a fixed chunk size\<close>

lemma file_write_same_disk:
  assumes "same_disk w u"
  shows "fst (file_write p chunk w) = fst (file_write p chunk u) \<and>
         same_disk (snd (file_write p chunk w)) (snd (file_write p chunk u))"
  using assms by (simp add: same_disk_def file_write_def log_io_def Let_def)

lemma write_chunks_fixed_agree:
  "same_disk w u \<Longrightarrow>
     fst (write_chunks tmp items cs t0 w) = fst (write_chunks_fixed tmp items u) \<and>
     same_disk (snd (snd (write_chunks tmp items cs t0 w))) (snd (write_chunks_fixed tmp items u))"
proof (induction items arbitrary: cs t0 w u)
  case Nil
  then show ?case by simp
next
  case (Cons item rest)
  show ?case
  proof (cases item)
    case Broken
    with Cons.prems show ?thesis by simp
  next
    case (Chunk chunk)
    let ?w1 = "w\<lparr>ticks := ticks w + 1\<rparr>"
    let ?c1 = "adapt cs (fsub w (now w (ticks w)) t0)"
    have s1: "same_disk ?w1 u" using Cons.prems by (simp add: same_disk_def)
    show ?thesis
    proof (cases "chunk = []")
      case True
      with Chunk s1 show ?thesis by (simp add: time_time_def Let_def)
    next
      case False
      obtain rw w2 where fw: "file_write tmp chunk ?w1 = (rw, w2)"
        by (cases "file_write tmp chunk ?w1")
      obtain ru u2 where fu: "file_write tmp chunk u = (ru, u2)"
        by (cases "file_write tmp chunk u")
      from file_write_same_disk [OF s1, of tmp chunk] fw fu
      have eq: "rw = ru" and s2: "same_disk w2 u2" by simp_all
      show ?thesis
      proof (cases rw)
        case (Inl e)
        then have "ru = Inl e" using eq by simp
        with Chunk False fw fu Inl s2 show ?thesis
          by (simp add: time_time_def Let_def)
      next
        case (Inr x)
        let ?w3 = "w2\<lparr>ticks := ticks w2 + 1\<rparr>"
        have s3: "same_disk ?w3 u2" using s2 by (simp add: same_disk_def)
        have ru: "ru = Inr x" using eq Inr by simp
        from Cons.IH [OF s3, of ?c1 "now w2 (ticks w2)"] Chunk False fw fu ru Inr
        show ?thesis
          by (auto simp: time_time_def Let_def split: prod.splits)
      qed
    qed
  qed
qed

lemma record_sizes_same_disk: "same_disk (record_sizes sizes w) u = same_disk w u"
  by (simp add: same_disk_def)

lemma shutil_move_same_disk:
  assumes "same_disk w u"
  shows "fst (shutil_move a b w) = fst (shutil_move a b u) \<and>
         same_disk (snd (shutil_move a b w)) (snd (shutil_move a b u))"
  using assms by (auto simp: same_disk_def shutil_move_def log_io_def Let_def split: option.splits)

lemma download_file_fixed_agree:
  assumes "same_disk w u"
  shows "fst (download_file destination response w) = fst (download_file_fixed destination response u) \<and>
         same_disk (snd (download_file destination response w))
                   (snd (download_file_fixed destination response u))"
proof (cases "parsed_length response")
  case None
  with assms show ?thesis by (simp add: download_file_def download_file_fixed_def)
next
  case (Some n)
  let ?tmp = "destination @ ''.part''"
  let ?w1 = "open_wb ?tmp w"
  let ?w2 = "?w1\<lparr>ticks := ticks ?w1 + 1\<rparr>"
  let ?u1 = "open_wb ?tmp u"
  let ?A = "write_chunks ?tmp (iter_content response 8192) 8192 (now ?w1 (ticks ?w1)) ?w2"
  let ?B = "write_chunks_fixed ?tmp (iter_content response 8192) ?u1"
  have s: "same_disk ?w2 ?u1"
    using assms by (simp add: same_disk_def open_wb_def log_io_def)
  note ag = write_chunks_fixed_agree [OF s, of ?tmp "iter_content response 8192" 8192 "now ?w1 (ticks ?w1)"]
  obtain ra sa wa where A: "?A = (ra, sa, wa)" by (cases ?A) auto
  obtain rb wb where B: "?B = (rb, wb)" by (cases ?B)
  from ag A B have eq: "ra = rb" and sd: "same_disk wa wb" by simp_all
  show ?thesis
  proof (cases ra)
    case (Inl e)
    then have "rb = Inl e" using eq by simp
    with Some A B Inl sd show ?thesis
      by (simp add: download_file_def download_file_fixed_def Let_def time_time_def
            record_sizes_same_disk)
  next
    case (Inr x)
    have rb: "rb = Inr x" using eq Inr by simp
    from sd have "same_disk (record_sizes sa wa) wb"
      by (simp add: record_sizes_same_disk)
    from shutil_move_same_disk [OF this, of ?tmp destination]
    show ?thesis
      using Some A B rb Inr
      by (auto simp: download_file_def download_file_fixed_def Let_def time_time_def
            split: prod.splits sum.splits)
  qed
qed

lemma same_disk_sym: "same_disk w u \<Longrightarrow> same_disk u w"
  by (simp add: same_disk_def)

lemma same_disk_trans: "same_disk w u \<Longrightarrow> same_disk u v \<Longrightarrow> same_disk w v"
  by (simp add: same_disk_def)

lemma same_disk_refl: "same_disk w w"
  by (simp add: same_disk_def)

lemma demo_fast_slow:
  "same_disk (clock_world [1 / 1024, 2 / 1024, 3 / 1024, 4 / 1024, 5 / 1024, 6 / 1024]) (clock_world [1, 2, 3, 4, 5, 6])"
  by (simp add: same_disk_def clock_world_def)

lemma demo_fixed:
  "download_file_fixed ''d'' \<lparr>parsed_length = Some 6, iter_content = (\<lambda>n. [Chunk ''abc'', Chunk ''def''])\<rparr>
     (clock_world [1, 2, 3, 4, 5, 6]) =
   (Inr ''d'',
    (clock_world [1, 2, 3, 4, 5, 6])\<lparr>files := [''d'' \<mapsto> ''abcdef''],
       io_log := [OpenWrite ''d.part'', Write ''d.part'' 3, Write ''d.part'' 3, Move ''d.part'' ''d'']\<rparr>)"
  by (simp add: download_file_fixed_def clock_world_def open_wb_def log_io_def
        file_write_def shutil_move_def Let_def fun_upd_twist)

text \<open>
  C9. The iterator is created once, with the chunk size 8192 the variable has before the
  loop, and the loop only ever changes the variable. So for every response and every clock,
  \<open>download_file\<close> ends as the download with the fixed chunk size 8192 does, and leaves the
  same files on disk: on two machines with the same disk, whatever their clocks read, the
  adaptive download and the fixed one agree in outcome and files, and so do two adaptive
  downloads.
\<close>

theorem download_independent_of_latency:
  assumes "same_disk w u"
  shows "fst (download_file destination response w) = fst (download_file_fixed destination response u) \<and>
         same_disk (snd (download_file destination response w))
                   (snd (download_file_fixed destination response u)) \<and>
         fst (download_file destination response w) = fst (download_file destination response u) \<and>
         same_disk (snd (download_file destination response w))
                   (snd (download_file destination response u))"
proof -
  note a = download_file_fixed_agree [OF assms, of destination response]
  note b = download_file_fixed_agree [OF same_disk_refl, of destination response u]
  from a b have "fst (download_file destination response w) = fst (download_file destination response u)"
    by simp
  moreover from a b have "same_disk (snd (download_file destination response w))
                   (snd (download_file destination response u))"
    by (blast intro: same_disk_trans same_disk_sym)
  ultimately show ?thesis using a by blast
qed

theorem download_independent_of_latency_witness:
  "same_disk (clock_world [1 / 1024, 2 / 1024, 3 / 1024, 4 / 1024, 5 / 1024, 6 / 1024]) (clock_world [1, 2, 3, 4, 5, 6]) \<and>
   (let R = \<lparr>parsed_length = Some 6, iter_content = (\<lambda>n. [Chunk ''abc'', Chunk ''def''])\<rparr>;
        X = download_file ''d'' R (clock_world [1 / 1024, 2 / 1024, 3 / 1024, 4 / 1024, 5 / 1024, 6 / 1024]);
        Y = download_file ''d'' R (clock_world [1, 2, 3, 4, 5, 6])
    in fst X = Inr ''d'' \<and> fst Y = Inr ''d'' \<and> files (snd X) = [''d'' \<mapsto> ''abcdef''] \<and>
       files (snd Y) = [''d'' \<mapsto> ''abcdef''])"
proof -
  let ?R = "\<lparr>parsed_length = Some 6, iter_content = (\<lambda>n. [Chunk ''abc'', Chunk ''def''])\<rparr>"
  let ?W = "clock_world [1 / 1024, 2 / 1024, 3 / 1024, 4 / 1024, 5 / 1024, 6 / 1024]"
  let ?U = "clock_world [1, 2, 3, 4, 5, 6]"
  note t = download_independent_of_latency [OF demo_fast_slow, of "''d''" ?R]
  have f: "fst (download_file_fixed ''d'' ?R ?U) = Inr ''d''"
    and g: "files (snd (download_file_fixed ''d'' ?R ?U)) = [''d'' \<mapsto> ''abcdef'']"
    unfolding demo_fixed by simp_all
  note t1 = t [THEN conjunct1] and t2 = t [THEN conjunct2, THEN conjunct1]
    and t3 = t [THEN conjunct2, THEN conjunct2, THEN conjunct1]
    and t4 = t [THEN conjunct2, THEN conjunct2, THEN conjunct2]
  have x: "fst (download_file ''d'' ?R ?W) = Inr ''d''"
    using t1 f by (rule trans)
  have y: "fst (download_file ''d'' ?R ?U) = Inr ''d''"
    using t3 [symmetric] x by (rule trans)
  have "files (snd (download_file ''d'' ?R ?W)) = files (snd (download_file_fixed ''d'' ?R ?U))"
    using t2 unfolding same_disk_def by (rule conjunct1)
  then have fx: "files (snd (download_file ''d'' ?R ?W)) = [''d'' \<mapsto> ''abcdef'']"
    using g by (rule trans)
  have "files (snd (download_file ''d'' ?R ?W)) = files (snd (download_file ''d'' ?R ?U))"
    using t4 unfolding same_disk_def by (rule conjunct1)
  from this [symmetric] fx have fy: "files (snd (download_file ''d'' ?R ?U)) = [''d'' \<mapsto> ''abcdef'']"
    by (rule trans)
  from demo_fast_slow x y fx fy show ?thesis
    unfolding Let_def by blast
qed

section \<open>Network transfers of download_train and download_test\<close>

lemma transfers_log_io:
  "transfers (log_io ev w) = transfers w + (if is_transfer ev then 1 else 0)"
  by (simp add: transfers_def log_io_def)

lemma transfers_upd [simp]:
  "transfers (w\<lparr>files := f\<rparr>) = transfers w"
  "transfers (w\<lparr>ticks := n\<rparr>) = transfers w"
  "transfers (record_sizes sizes w) = transfers w"
  by (simp_all add: transfers_def)

lemma file_write_transfers: "transfers (snd (file_write p chunk w)) = transfers w"
  by (simp add: file_write_def Let_def transfers_log_io is_transfer_def)

lemma write_chunks_transfers:
  "transfers (snd (snd (write_chunks tmp items cs t0 w))) = transfers w"
proof (induction items arbitrary: cs t0 w)
  case Nil
  then show ?case by simp
next
  case (Cons item rest)
  show ?case
  proof (cases item)
    case Broken
    then show ?thesis by simp
  next
    case (Chunk chunk)
    let ?w1 = "w\<lparr>ticks := ticks w + 1\<rparr>"
    obtain rw w2 where fw: "file_write tmp chunk ?w1 = (rw, w2)"
      by (cases "file_write tmp chunk ?w1")
    from file_write_transfers [of tmp chunk ?w1] fw have t2: "transfers w2 = transfers w" by simp
    let ?w3 = "w2\<lparr>ticks := ticks w2 + 1\<rparr>"
    from Cons.IH [of "adapt cs (fsub w (now w (ticks w)) t0)" "now w2 (ticks w2)" ?w3] t2
    show ?thesis
      using Chunk fw
      by (auto simp: time_time_def Let_def split: prod.splits sum.splits)
  qed
qed

lemma download_file_transfers:
  "transfers (snd (download_file destination response w)) = transfers w"
proof (cases "parsed_length response")
  case None
  then show ?thesis by (simp add: download_file_def)
next
  case (Some n)
  let ?tmp = "destination @ ''.part''"
  let ?w1 = "open_wb ?tmp w"
  let ?w2 = "?w1\<lparr>ticks := ticks ?w1 + 1\<rparr>"
  let ?A = "write_chunks ?tmp (iter_content response 8192) 8192 (now ?w1 (ticks ?w1)) ?w2"
  have "transfers ?w2 = transfers w"
    by (simp add: open_wb_def transfers_log_io is_transfer_def)
  with write_chunks_transfers [of ?tmp "iter_content response 8192" 8192 "now ?w1 (ticks ?w1)" ?w2]
  have a: "transfers (snd (snd ?A)) = transfers w" by simp
  obtain ra sa wa where A: "?A = (ra, sa, wa)" by (cases ?A) auto
  with a have wa: "transfers wa = transfers w" by simp
  have mv: "transfers (snd (shutil_move ?tmp destination (record_sizes sa wa))) = transfers w"
    using wa by (simp add: shutil_move_def Let_def transfers_log_io is_transfer_def split: option.splits)
  show ?thesis
    using Some A wa mv
    by (auto simp: download_file_def Let_def time_time_def split: prod.splits sum.splits)
qed

lemma download_test_hit:
  assumes "create_destination ev (test_url subject) sign \<in> dom (files w)"
  shows "download_test ev subject sign w =
           (Inr (create_destination ev (test_url subject) sign),
            log_io (IsFile (create_destination ev (test_url subject) sign)) w)"
  using assms by (simp add: download_test_def Let_def op_isfile_def)

lemma download_test_miss:
  assumes "download_test ev subject sign w = (Inr p, w1)"
    and "create_destination ev (test_url subject) sign \<notin> dom (files w)"
  shows "p = create_destination ev (test_url subject) sign \<and> p \<in> dom (files w1) \<and>
         transfers w1 = transfers w + 1"
proof -
  let ?url = "test_url subject"
  let ?d = "create_destination ev ?url sign"
  let ?w1 = "log_io (IsFile ?d) w"
  let ?rq = "\<lparr>req_url = ?url, req_auth = None, req_timeout = 30, req_verify = False\<rparr>"
  let ?w2 = "log_io (HttpGet ?rq) ?w1"
  have t2: "transfers ?w2 = transfers w + 1"
    by (simp add: transfers_log_io is_transfer_def)
  from assms obtain response where net: "net ?w1 ?rq = Inr response"
    by (cases "net ?w1 ?rq") (auto simp: download_test_def Let_def op_isfile_def requests_get_def)
  obtain r w3 where df: "download_file ?d response ?w2 = (r, w3)"
    by (cases "download_file ?d response ?w2")
  from assms net df obtain q where r: "r = Inr q" and p: "p = ?d" and w: "w1 = w3"
    by (cases r) (auto simp: download_test_def Let_def op_isfile_def requests_get_def)
  from download_file_success [of ?d response ?w2 q w3] df r have "?d \<in> dom (files w3)" by simp
  moreover from download_file_transfers [of ?d response ?w2] df t2
  have "transfers w3 = transfers w + 1" by simp
  ultimately show ?thesis using p w by simp
qed

lemma extractall_transfers: "transfers (snd (extractall ev z b w)) = transfers w"
  by (simp add: extractall_def Let_def transfers_log_io is_transfer_def split: option.splits)

lemma os_remove_transfers: "transfers (snd (os_remove p w)) = transfers w"
  by (simp add: os_remove_def Let_def transfers_log_io is_transfer_def)

lemma fetch_zip_transfers:
  "transfers (snd (fetch_zip url zippath timeout w)) =
     (if zippath \<in> dom (files w) then transfers w else transfers w + 1)"
proof (cases "zippath \<in> dom (files w)")
  case True
  then show ?thesis
    by (simp add: fetch_zip_def op_isfile_def transfers_log_io is_transfer_def)
next
  case False
  let ?w1 = "log_io (IsFile zippath) w"
  let ?rq = "\<lparr>req_url = url, req_auth = Some (''amar.yousif09@gmail.com'', ''AThaLe9ied''),
              req_timeout = timeout, req_verify = True\<rparr>"
  let ?w2 = "log_io (HttpGet ?rq) ?w1"
  have t2: "transfers ?w2 = transfers w + 1"
    by (simp add: transfers_log_io is_transfer_def)
  show ?thesis
  proof (cases "net ?w1 ?rq")
    case (Inl e)
    with False t2 show ?thesis
      by (simp add: fetch_zip_def op_isfile_def requests_get_def Let_def)
  next
    case (Inr response)
    with False t2 download_file_transfers [of zippath response ?w2] show ?thesis
      by (simp add: fetch_zip_def op_isfile_def requests_get_def Let_def)
  qed
qed

lemma download_train_hit:
  assumes "train_matpath (create_destination ev trainURL sign) subject \<in> dom (files w)"
  shows "download_train ev subject sign w =
           (Inr (train_matpath (create_destination ev trainURL sign) subject),
            log_io (IsFile (train_matpath (create_destination ev trainURL sign) subject)) w)"
  using assms by (simp add: download_train_def Let_def op_isfile_def)

lemma download_train_miss:
  assumes "download_train ev subject sign w = (r, w1)"
    and "train_matpath (create_destination ev trainURL sign) subject \<notin> dom (files w)"
  shows "transfers w1 =
           (if train_zippath (create_destination ev trainURL sign) subject \<in> dom (files w)
            then transfers w else transfers w + 1)"
proof -
  let ?b = "create_destination ev trainURL sign"
  let ?m = "train_matpath ?b subject"
  let ?z = "train_zippath ?b subject"
  let ?w1 = "log_io (IsFile ?m) w"
  let ?F = "fetch_zip (train_url subject) ?z 30 ?w1"
  have f: "transfers (snd ?F) = (if ?z \<in> dom (files w) then transfers w else transfers w + 1)"
    using fetch_zip_transfers [of "train_url subject" ?z 30 ?w1]
    by (simp add: log_io_def transfers_def is_transfer_def)
  obtain rf wf where F: "?F = (rf, wf)" by (cases ?F)
  show ?thesis
  proof (cases rf)
    case (Inl e)
    with assms F f show ?thesis
      by (auto simp: download_train_def Let_def op_isfile_def)
  next
    case (Inr z1)
    obtain re we where E: "extractall ev z1 ?b wf = (re, we)" by (cases "extractall ev z1 ?b wf")
    obtain ro wo where R: "os_remove z1 we = (ro, wo)" by (cases "os_remove z1 we")
    from extractall_transfers [of ev z1 ?b wf] E have te: "transfers we = transfers wf" by simp
    from os_remove_transfers [of z1 we] R have tr: "transfers wo = transfers we" by simp
    from assms F Inr E R te tr f show ?thesis
      by (auto simp: download_train_def Let_def op_isfile_def split: sum.splits)
  qed
qed

lemma download_train_path:
  "download_train ev subject sign w = (Inr p, w1) \<Longrightarrow>
     p = train_matpath (create_destination ev trainURL sign) subject"
  by (auto simp: download_train_def Let_def op_isfile_def split: prod.splits sum.splits if_splits)

lemmas resolver_eval =
  download_train_def download_test_def demo_env_def serving_world_def op_isfile_def fetch_zip_def
  requests_get_def download_file_def open_wb_def log_io_def time_time_def file_write_def
  shutil_move_def extractall_def os_remove_def Let_def train_url_def train_zippath_def
  train_matpath_def test_url_def trainURL_def testURL_def op_join_def transfers_def is_transfer_def

lemma demo_test_cold:
  "fst (download_test (demo_env [(''1000Hz/data_set_IVa_aa.mat'', ''MAT'')] [] [] (demo_recording []))
          ''aa'' ''BCIComp'' (serving_world [Chunk ''abc''])) =
     Inr (create_destination (demo_env [(''1000Hz/data_set_IVa_aa.mat'', ''MAT'')] [] [] (demo_recording []))
            (test_url ''aa'') ''BCIComp'')"
  by (simp add: resolver_eval)

lemma demo_train_cold:
  "fst (download_train (demo_env [(''1000Hz/data_set_IVa_aa.mat'', ''MAT'')] [] [] (demo_recording []))
          ''aa'' ''BCIComp'' (serving_world [Chunk ''PK''])) =
     Inr (train_matpath (create_destination
            (demo_env [(''1000Hz/data_set_IVa_aa.mat'', ''MAT'')] [] [] (demo_recording []))
            trainURL ''BCIComp'') ''aa'')"
  by (simp add: resolver_eval)

lemma demo_train_extracted:
  "train_matpath (create_destination
        (demo_env [(''1000Hz/data_set_IVa_aa.mat'', ''MAT'')] [] [] (demo_recording []))
        trainURL ''BCIComp'') ''aa''
   \<in> dom (files (snd (download_train
        (demo_env [(''1000Hz/data_set_IVa_aa.mat'', ''MAT'')] [] [] (demo_recording []))
        ''aa'' ''BCIComp'' (serving_world [Chunk ''PK'']))))"
  by (simp add: resolver_eval)

text \<open>
  C6 (as the code has it). When the final file is on disk at the call, \<open>download_test\<close> and
  \<open>download_train\<close> return its path after the one \<open>isfile\<close> test: no request, no change to
  any file. A call of \<open>download_test\<close> that finds no file and returns has made exactly one
  transfer and has put the file in place, so calling it again is such a cache hit: two calls,
  one transfer. A call of \<open>download_train\<close> that finds no \<open>.mat\<close> file and returns has made
  one transfer, or none when the archive was already on disk; calling it again is a cache hit
  when the \<open>.mat\<close> file exists after the first call, that is when the archive held it under
  the expected name.
\<close>

theorem cache_hit_no_transfer:
  "(create_destination ev (test_url subject) sign \<in> dom (files w) \<longrightarrow>
      download_test ev subject sign w =
        (Inr (create_destination ev (test_url subject) sign),
         log_io (IsFile (create_destination ev (test_url subject) sign)) w)) \<and>
   (download_test ev subject sign w = (Inr p, w1) \<and>
    create_destination ev (test_url subject) sign \<notin> dom (files w) \<longrightarrow>
      transfers w1 = transfers w + 1 \<and> p \<in> dom (files w1) \<and>
      download_test ev subject sign w1 = (Inr p, log_io (IsFile p) w1) \<and>
      transfers (snd (download_test ev subject sign w1)) = transfers w + 1) \<and>
   (train_matpath (create_destination ev trainURL sign) subject \<in> dom (files w) \<longrightarrow>
      download_train ev subject sign w =
        (Inr (train_matpath (create_destination ev trainURL sign) subject),
         log_io (IsFile (train_matpath (create_destination ev trainURL sign) subject)) w)) \<and>
   (download_train ev subject sign w = (Inr q, w2) \<and>
    train_matpath (create_destination ev trainURL sign) subject \<notin> dom (files w) \<longrightarrow>
      q = train_matpath (create_destination ev trainURL sign) subject \<and>
      transfers w2 =
        (if train_zippath (create_destination ev trainURL sign) subject \<in> dom (files w)
         then transfers w else transfers w + 1) \<and>
      (q \<in> dom (files w2) \<longrightarrow>
         download_train ev subject sign w2 = (Inr q, log_io (IsFile q) w2) \<and>
         transfers (snd (download_train ev subject sign w2)) = transfers w2))"
proof (intro conjI impI)
  assume "create_destination ev (test_url subject) sign \<in> dom (files w)"
  then show "download_test ev subject sign w =
        (Inr (create_destination ev (test_url subject) sign),
         log_io (IsFile (create_destination ev (test_url subject) sign)) w)"
    by (rule download_test_hit)
next
  assume a: "download_test ev subject sign w = (Inr p, w1) \<and>
    create_destination ev (test_url subject) sign \<notin> dom (files w)"
  then have m: "p = create_destination ev (test_url subject) sign \<and> p \<in> dom (files w1) \<and>
         transfers w1 = transfers w + 1"
    using download_test_miss by blast
  then show "transfers w1 = transfers w + 1" and "p \<in> dom (files w1)" by blast+
  from m have "create_destination ev (test_url subject) sign \<in> dom (files w1)" by auto
  from download_test_hit [OF this] m
  show h: "download_test ev subject sign w1 = (Inr p, log_io (IsFile p) w1)" by auto
  show "transfers (snd (download_test ev subject sign w1)) = transfers w + 1"
    using m by (simp add: h transfers_log_io is_transfer_def)
next
  assume "train_matpath (create_destination ev trainURL sign) subject \<in> dom (files w)"
  then show "download_train ev subject sign w =
        (Inr (train_matpath (create_destination ev trainURL sign) subject),
         log_io (IsFile (train_matpath (create_destination ev trainURL sign) subject)) w)"
    by (rule download_train_hit)
next
  assume a: "download_train ev subject sign w = (Inr q, w2) \<and>
    train_matpath (create_destination ev trainURL sign) subject \<notin> dom (files w)"
  then show q: "q = train_matpath (create_destination ev trainURL sign) subject"
    using download_train_path by blast
  from a show "transfers w2 =
        (if train_zippath (create_destination ev trainURL sign) subject \<in> dom (files w)
         then transfers w else transfers w + 1)"
    using download_train_miss by blast
  show "download_train ev subject sign w2 = (Inr q, log_io (IsFile q) w2)" if "q \<in> dom (files w2)"
    using that q download_train_hit [of ev sign subject w2] by simp
  then show "transfers (snd (download_train ev subject sign w2)) = transfers w2"
    if "q \<in> dom (files w2)"
    using that by (simp add: transfers_log_io is_transfer_def)
qed

theorem cache_hit_no_transfer_witness:
  "(let E = demo_env [(''1000Hz/data_set_IVa_aa.mat'', ''MAT'')] [] [] (demo_recording []);
        T = download_test E ''aa'' ''BCIComp'' (serving_world [Chunk ''abc'']);
        R = download_train E ''aa'' ''BCIComp'' (serving_world [Chunk ''PK''])
    in \<not> isl (fst T) \<and> transfers (snd T) = 1 \<and>
       fst (download_test E ''aa'' ''BCIComp'' (snd T)) = fst T \<and>
       transfers (snd (download_test E ''aa'' ''BCIComp'' (snd T))) = 1 \<and>
       \<not> isl (fst R) \<and> transfers (snd R) = 1 \<and>
       fst (download_train E ''aa'' ''BCIComp'' (snd R)) = fst R \<and>
       transfers (snd (download_train E ''aa'' ''BCIComp'' (snd R))) = 1 \<and>
       transfers (snd (download_test E ''aa'' ''BCIComp'' cached_world)) = 0 \<and>
       transfers (snd (download_train E ''aa'' ''BCIComp'' cached_world)) = 0)"
proof -
  let ?E = "demo_env [(''1000Hz/data_set_IVa_aa.mat'', ''MAT'')] [] [] (demo_recording [])"
  let ?WT = "serving_world [Chunk ''abc'']" and ?WR = "serving_world [Chunk ''PK'']"
  let ?T = "download_test ?E ''aa'' ''BCIComp'' ?WT"
  let ?R = "download_train ?E ''aa'' ''BCIComp'' ?WR"
  let ?D = "create_destination ?E (test_url ''aa'') ''BCIComp''"
  let ?M = "train_matpath (create_destination ?E trainURL ''BCIComp'') ''aa''"
  let ?Z = "train_zippath (create_destination ?E trainURL ''BCIComp'') ''aa''"
  have T: "?T = (Inr ?D, snd ?T)" using demo_test_cold by (simp add: prod_eq_iff)
  have R: "?R = (Inr ?M, snd ?R)" using demo_train_cold by (simp add: prod_eq_iff)
  have eT: "?D \<notin> dom (files ?WT)" and eR: "?M \<notin> dom (files ?WR)" and eZ: "?Z \<notin> dom (files ?WR)"
    and tT: "transfers ?WT = 0" and tR: "transfers ?WR = 0"
    by (simp_all add: serving_world_def transfers_def)
  have cD: "?D \<in> dom (files cached_world)" and cM: "?M \<in> dom (files cached_world)"
    and tC: "transfers cached_world = 0"
    by (simp_all add: cached_world_def transfers_def)
  note t = cache_hit_no_transfer [of ?E "''aa''" "''BCIComp''" ?WT ?D "snd ?T" ?M "snd ?R"]
  note r = cache_hit_no_transfer [of ?E "''aa''" "''BCIComp''" ?WR ?D "snd ?T" ?M "snd ?R"]
  note c = cache_hit_no_transfer [of ?E "''aa''" "''BCIComp''" cached_world ?D "snd ?T" ?M "snd ?R"]
  from t T eT have t1: "transfers (snd ?T) = transfers ?WT + 1"
    and t2: "download_test ?E ''aa'' ''BCIComp'' (snd ?T) = (Inr ?D, log_io (IsFile ?D) (snd ?T))"
    and t3: "transfers (snd (download_test ?E ''aa'' ''BCIComp'' (snd ?T))) = transfers ?WT + 1"
    by blast+
  from r R eR have r1: "transfers (snd ?R) =
        (if ?Z \<in> dom (files ?WR) then transfers ?WR else transfers ?WR + 1)"
    and r2: "?M \<in> dom (files (snd ?R)) \<longrightarrow>
         download_train ?E ''aa'' ''BCIComp'' (snd ?R) = (Inr ?M, log_io (IsFile ?M) (snd ?R)) \<and>
         transfers (snd (download_train ?E ''aa'' ''BCIComp'' (snd ?R))) = transfers (snd ?R)"
    by blast+
  from r2 demo_train_extracted
  have r3: "download_train ?E ''aa'' ''BCIComp'' (snd ?R) = (Inr ?M, log_io (IsFile ?M) (snd ?R))"
    and r4: "transfers (snd (download_train ?E ''aa'' ''BCIComp'' (snd ?R))) = transfers (snd ?R)"
    by blast+
  from c cD have c1: "download_test ?E ''aa'' ''BCIComp'' cached_world =
      (Inr ?D, log_io (IsFile ?D) cached_world)" by blast
  from c cM have c2: "download_train ?E ''aa'' ''BCIComp'' cached_world =
      (Inr ?M, log_io (IsFile ?M) cached_world)" by blast
  have a1: "\<not> isl (fst ?T)" by (subst T) simp
  have a2: "transfers (snd ?T) = 1" using t1 tT by simp
  have a3: "fst (download_test ?E ''aa'' ''BCIComp'' (snd ?T)) = fst ?T"
    by (subst t2, subst (2) T) simp
  have a4: "transfers (snd (download_test ?E ''aa'' ''BCIComp'' (snd ?T))) = 1" using t3 tT by simp
  have b1: "\<not> isl (fst ?R)" by (subst R) simp
  have b2: "transfers (snd ?R) = 1" using r1 eZ tR by simp
  have b3: "fst (download_train ?E ''aa'' ''BCIComp'' (snd ?R)) = fst ?R"
    by (subst r3, subst (2) R) simp
  have b4: "transfers (snd (download_train ?E ''aa'' ''BCIComp'' (snd ?R))) = 1" using r4 b2 by simp
  have d1: "transfers (snd (download_test ?E ''aa'' ''BCIComp'' cached_world)) = 0"
    unfolding c1 using tC by (simp add: transfers_log_io is_transfer_def)
  have d2: "transfers (snd (download_train ?E ''aa'' ''BCIComp'' cached_world)) = 0"
    unfolding c2 using tC by (simp add: transfers_log_io is_transfer_def)
  from a1 a2 a3 a4 b1 b2 b3 b4 d1 d2 show ?thesis
    unfolding Let_def by blast
qed

text \<open>
  Two calls of \<open>download_train\<close> with the same arguments, on a machine with an empty disk
  whose server sends an archive without the expected member: both calls return the path of
  the \<open>.mat\<close> file, and two transfers have been made.
\<close>

theorem resolve_twice_two_transfers_counterexample:
  "fst (download_train (demo_env [(''readme.txt'', ''hello'')] [] [] (demo_recording []))
          ''aa'' ''BCIComp'' (serving_world [Chunk ''PK''])) =
     Inr (train_matpath ''/BCIComp/http://bbci.de/competition/download/competition_iii/berlin/1000Hz/'' ''aa'') \<and>
   fst (download_train (demo_env [(''readme.txt'', ''hello'')] [] [] (demo_recording []))
          ''aa'' ''BCIComp''
          (snd (download_train (demo_env [(''readme.txt'', ''hello'')] [] [] (demo_recording []))
                  ''aa'' ''BCIComp'' (serving_world [Chunk ''PK''])))) =
     Inr (train_matpath ''/BCIComp/http://bbci.de/competition/download/competition_iii/berlin/1000Hz/'' ''aa'') \<and>
   transfers (serving_world [Chunk ''PK'']) = 0 \<and>
   transfers (snd (download_train (demo_env [(''readme.txt'', ''hello'')] [] [] (demo_recording []))
          ''aa'' ''BCIComp''
          (snd (download_train (demo_env [(''readme.txt'', ''hello'')] [] [] (demo_recording []))
                  ''aa'' ''BCIComp'' (serving_world [Chunk ''PK'']))))) = 2"
  by (simp add: resolver_eval)

section \<open>Subjects outside the population\<close>

lemma subject_list_4a: "set (subject_list Dataset4a_init) = {1, 2, 3, 4, 5}"
  by (simp add: Dataset4a_init_def BaseDataset_init_def dataset.extend_def upt_rec)

lemma subject_list_4a_iff: "subject \<in> set (subject_list Dataset4a_init) \<longleftrightarrow> 1 \<le> subject \<and> subject \<le> 5"
  unfolding subject_list_4a by auto

lemma subject_list_ma: "subject \<in> set (subject_list Ma2020_init) \<longleftrightarrow> 1 \<le> subject \<and> subject \<le> 25"
proof -
  have "set (subject_list Ma2020_init) = int ` {1..<26}"
    by (simp add: Ma2020_init_def BaseDataset_init_def)
  also have "subject \<in> int ` {1..<26} \<longleftrightarrow> 1 \<le> subject \<and> subject \<le> 25"
  proof
    assume "subject \<in> int ` {1..<26}"
    then show "1 \<le> subject \<and> subject \<le> 25" by auto
  next
    assume a: "1 \<le> subject \<and> subject \<le> 25"
    then have "nat subject \<in> {1..<26}" by auto
    moreover have "subject = int (nat subject)" using a by simp
    ultimately show "subject \<in> int ` {1..<26}" by (rule rev_image_eqI)
  qed
  finally show ?thesis .
qed

text \<open>
  C7. For a subject outside the declared population, outside 1..5 for Dataset4a and outside
  1..25 for Ma2020, \<open>data_path\<close> raises ValueError and the machine is exactly as before: no
  file or network operation has been logged. \<open>_get_single_subject_data\<close>, the caller, ends
  with the same error on the same untouched machine: the error is passed on, nothing is
  retried.
\<close>

theorem invalid_subject_before_io:
  "(subject < 1 \<or> 5 < subject \<longrightarrow>
      Dataset4a_data_path ev Dataset4a_init subject w = (Inl ValueError, w) \<and>
      Dataset4a_get_single_subject_data ev Dataset4a_init subject w = (Inl ValueError, w)) \<and>
   (subject < 1 \<or> 25 < subject \<longrightarrow>
      Ma2020_data_path ev Ma2020_init subject w = (Inl ValueError, w) \<and>
      Ma2020_get_single_subject_data ev Ma2020_init subject w = (Inl ValueError, w))"
proof (intro conjI impI)
  assume "subject < 1 \<or> 5 < subject"
  then have n: "subject \<notin> set (subject_list Dataset4a_init)"
    by (auto simp: subject_list_4a_iff)
  then show d: "Dataset4a_data_path ev Dataset4a_init subject w = (Inl ValueError, w)"
    by (simp add: Dataset4a_data_path_def)
  show "Dataset4a_get_single_subject_data ev Dataset4a_init subject w = (Inl ValueError, w)"
    by (simp add: Dataset4a_get_single_subject_data_def d)
next
  assume "subject < 1 \<or> 25 < subject"
  then have n: "subject \<notin> set (subject_list Ma2020_init)"
    by (auto simp: subject_list_ma)
  then show d: "Ma2020_data_path ev Ma2020_init subject w = (Inl ValueError, w)"
    by (simp add: Ma2020_data_path_def)
  show "Ma2020_get_single_subject_data ev Ma2020_init subject w = (Inl ValueError, w)"
    by (simp add: Ma2020_get_single_subject_data_def d)
qed

theorem invalid_subject_before_io_witness:
  "Dataset4a_data_path (demo_env [] [] [] (demo_recording [])) Dataset4a_init 6 cached_world =
     (Inl ValueError, cached_world) \<and>
   Dataset4a_get_single_subject_data (demo_env [] [] [] (demo_recording [])) Dataset4a_init 0 cached_world =
     (Inl ValueError, cached_world) \<and>
   Ma2020_data_path (demo_env [] [] [] (demo_recording [])) Ma2020_init 26 cached_world =
     (Inl ValueError, cached_world) \<and>
   Ma2020_get_single_subject_data (demo_env [] [] [] (demo_recording [])) Ma2020_init 0 cached_world =
     (Inl ValueError, cached_world) \<and>
   io_log cached_world = []"
proof -
  let ?E = "demo_env [] [] [] (demo_recording [])"
  have a: "(6::int) < 1 \<or> 5 < (6::int)" and b: "(0::int) < 1 \<or> 5 < (0::int)"
    and c: "(26::int) < 1 \<or> 25 < (26::int)" and d: "(0::int) < 1 \<or> 25 < (0::int)"
    by simp_all
  from invalid_subject_before_io [of 6 ?E cached_world] a
  have 1: "Dataset4a_data_path ?E Dataset4a_init 6 cached_world = (Inl ValueError, cached_world)"
    by blast
  from invalid_subject_before_io [of 0 ?E cached_world] b d
  have 2: "Dataset4a_get_single_subject_data ?E Dataset4a_init 0 cached_world = (Inl ValueError, cached_world)"
    and 4: "Ma2020_get_single_subject_data ?E Ma2020_init 0 cached_world = (Inl ValueError, cached_world)"
    by blast+
  from invalid_subject_before_io [of 26 ?E cached_world] c
  have 3: "Ma2020_data_path ?E Ma2020_init 26 cached_world = (Inl ValueError, cached_world)"
    by blast
  have 5: "io_log cached_world = []" by (simp add: cached_world_def)
  from 1 2 3 4 5 show ?thesis by blast
qed

section \<open>Annotations of a Ma2020 run\<close>






















section \<open>Keys of the returned dictionaries\<close>

lemma get_single_subject_data_assembled:
  assumes "Dataset4a_get_single_subject_data ev self subject w = (Inr out, w')"
  obtains train_data test_data where "assemble train_data test_data = Inr out"
  using assms
  by (auto simp: Dataset4a_get_single_subject_data_def split: prod.splits sum.splits)

lemma assemble_keys:
  assumes "assemble train_data test_data = Inr out"
  shows "dom out = {''session_1''} \<and> (\<exists>ses. out ''session_1'' = Some ses \<and> dom ses = {''train'', ''test''})"
proof -
  from assms obtain raw_train raw_test where
    "out = [''session_1'' \<mapsto> [''train'' \<mapsto> raw_train, ''test'' \<mapsto> raw_test]]"
    by (rule assemble_Inr)
  then show ?thesis by auto
qed

lemma loadmat_files: "loadmat parse p w = (r, w') \<Longrightarrow> files w' = files w"
  by (auto simp: loadmat_def Let_def log_io_def split: option.splits)

lemma load_runs_keys:
  "load_runs ev file_paths runs ses w = (Inr ses', w') \<Longrightarrow>
     dom ses' = dom ses \<union> (\<lambda>run. ''run_'' @ str_nat run) ` set runs"
proof (induction runs arbitrary: ses w)
  case Nil
  then show ?case by simp
next
  case (Cons run runs)
  from Cons.prems obtain raw1 w1 where
    "load_runs ev file_paths runs (ses(''run_'' @ str_nat run \<mapsto> raw1)) w1 = (Inr ses', w')"
    by (auto simp: Let_def split: sum.splits prod.splits)
  from Cons.IH [OF this] show ?case by auto
qed

lemma run_names:
  "(\<lambda>run. ''run_'' @ str_nat run) ` set [1..<20] =
     {''run_1'', ''run_2'', ''run_3'', ''run_4'', ''run_5'', ''run_6'', ''run_7'', ''run_8'', ''run_9'',
      ''run_10'', ''run_11'', ''run_12'', ''run_13'', ''run_14'', ''run_15'', ''run_16'', ''run_17'',
      ''run_18'', ''run_19''}"
  by (simp del: set_upt add: upt_rec str_nat.simps)

lemma demo_4a_runs:
  "\<not> isl (fst (Dataset4a_get_single_subject_data
                  (demo_env [] [100, 500, 900] [1, 2, 0] (demo_recording [])) Dataset4a_init 1 cached_world))"
proof -
  let ?E = "demo_env [] [100, 500, 900] [1, 2, 0] (demo_recording [])"
  obtain out where a: "assemble (scenario_train [100, 500, 900]) (scenario_test [1, 2, 0]) = Inr out"
    using scenario_succeeds [of 900 0]
    by (cases "assemble (scenario_train [100, 500, 900]) (scenario_test [1, 2, 0])") auto
  have f: "p \<in> dom (files cached_world)" for p by (simp add: cached_world_def)
  have f1: "p \<in> dom (files (log_io e cached_world))" for e p
    by (simp add: cached_world_def log_io_def)
  have nm: "np_getitem (subject_names Dataset4a_init) (1 - 1) = Inr ''aa''"
    by (simp add: Dataset4a_init_def dataset.extend_def dataset4a.fields_def BaseDataset_init_def
          np_getitem_def np_index_def)
  have sl: "(1::int) \<in> set (subject_list Dataset4a_init)"
    by (simp add: subject_list_4a_iff)
  let ?M = "train_matpath (create_destination ?E trainURL ''BCIComp'') ''aa''"
  let ?D = "create_destination ?E (test_url ''aa'') ''BCIComp''"
  let ?w1 = "log_io (IsFile ?M) cached_world"
  let ?w2 = "log_io (IsFile ?D) ?w1"
  have dp: "Dataset4a_data_path ?E Dataset4a_init 1 cached_world = (Inr [?M, ?D], ?w2)"
    unfolding Dataset4a_data_path_def
    by (simp only: sl nm download_train_hit [OF f] download_test_hit [OF f1]
          not_True_eq_False if_False sum.case prod.case simp_thms)
  have fs: "files ?w2 p = Some ''data''" for p
    by (simp add: cached_world_def log_io_def)
  have fs3: "files (log_io e ?w2) p = Some ''data''" for e p
    by (simp add: cached_world_def log_io_def)
  have l1: "loadmat (parse_train ?E) ?M ?w2 =
      (Inr (scenario_train [100, 500, 900]), log_io (ReadFile ?M) ?w2)"
    unfolding loadmat_def Let_def fs by (simp add: demo_env_def)
  have l2: "loadmat (parse_test ?E) ?D (log_io (ReadFile ?M) ?w2) =
      (Inr (scenario_test [1, 2, 0]), log_io (ReadFile ?D) (log_io (ReadFile ?M) ?w2))"
    unfolding loadmat_def Let_def fs3 by (simp add: demo_env_def)
  have n0: "[?M, ?D] ! 0 = ?M" and n1: "[?M, ?D] ! 1 = ?D" by simp_all
  show ?thesis
    unfolding Dataset4a_get_single_subject_data_def dp
    by (simp only: prod.case sum.case n0 n1 l1 l2 a fst_conv sum.disc simp_thms)
qed

lemma load_runs_succeeds:
  assumes "\<forall>b. parse_cnt ev b = Inr recording" and pr: "process_run recording = Inr processed"
  shows "\<forall>p. files w p \<noteq> None \<Longrightarrow> \<forall>run\<in>set runs. 1 \<le> run \<and> run \<le> length file_paths \<Longrightarrow>
         \<not> isl (fst (load_runs ev file_paths runs ses w))"
proof (induction runs arbitrary: ses w)
  case Nil
  then show ?case by simp
next
  case (Cons run runs)
  from Cons.prems(2) have b: "1 \<le> run" "run \<le> length file_paths" by simp_all
  let ?p = "file_paths ! (run - 1)"
  have g: "np_getitem file_paths (int run - 1) = Inr ?p"
    using b by (auto simp: np_getitem_def np_index_def nat_diff_distrib')
  from Cons.prems(1) obtain c where c: "files w ?p = Some c" by auto
  let ?w1 = "log_io (ReadFile ?p) w"
  have r: "read_raw_cnt ev ?p w = (Inr recording, ?w1)"
    using c assms(1) by (simp add: read_raw_cnt_def loadmat_def Let_def)
  have step: "load_runs ev file_paths (run # runs) ses w =
      load_runs ev file_paths runs (ses(''run_'' @ str_nat run \<mapsto> processed)) ?w1"
    by (simp only: load_runs.simps g r pr sum.case prod.case Let_def)
  have "\<forall>p. files ?w1 p \<noteq> None" using Cons.prems(1) by (simp add: log_io_def)
  moreover have "\<forall>run\<in>set runs. 1 \<le> run \<and> run \<le> length file_paths"
    using Cons.prems(2) by simp
  ultimately have "\<not> isl (fst (load_runs ev file_paths runs
      (ses(''run_'' @ str_nat run \<mapsto> processed)) ?w1))"
    by (rule Cons.IH)
  then show ?case unfolding step .
qed

lemma demo_ma_runs:
  "\<not> isl (fst (Ma2020_get_single_subject_data
                  (demo_env [] [] [] (demo_recording [])) Ma2020_init 1 cached_world))"
proof -
  let ?E = "demo_env [] [] [] (demo_recording [])"
  let ?key = "''MNE-ma2020-data''"
  let ?path = "get_path ?E ?key ''Ma2020''"
  let ?base = "op_join ?path ?key"
  let ?w2 = "log_io (ConfigUpdate ?key ?path) (log_io (ConfigRead ?key) cached_world)"
  let ?w3 = "log_io (IsDir ?base) ?w2"
  let ?paths = "map (\<lambda>session. op_join ?base (session_path 1 session)) [1..<20]"
  have sl: "(1::int) \<in> set (subject_list Ma2020_init)"
    by (simp add: subject_list_ma)
  have dir: "op_isdir ?base ?w2 = (True, ?w3)"
    by (simp add: op_isdir_def log_io_def cached_world_def)
  have d: "Ma2020_data_path ?E Ma2020_init 1 cached_world = (Inr ?paths, ?w3)"
    unfolding Ma2020_data_path_def Let_def
    by (simp only: sl dir not_True_eq_False if_False prod.case bool.case simp_thms)
  have pc: "\<forall>b. parse_cnt ?E b = Inr (demo_recording [])" by (simp add: demo_env_def)
  have "\<not> isl (process_run (demo_recording []))"
    by (simp add: process_run_def drop_channels_def demo_recording_def Let_def astype_U11_def)
  then have pk: "process_run (demo_recording []) = Inr (projr (process_run (demo_recording [])))"
    by simp
  have fw: "\<forall>p. files ?w3 p \<noteq> None" by (simp add: log_io_def cached_world_def)
  have len: "length ?paths = 19" by simp
  have rb: "\<forall>run\<in>set [1..<20]. 1 \<le> run \<and> run \<le> length ?paths"
    unfolding len by simp
  have ok: "\<not> isl (fst (load_runs ?E ?paths [1..<20] Map.empty ?w3))"
    using pc pk fw rb by (rule load_runs_succeeds)
  obtain r w2 where l: "load_runs ?E ?paths [1..<20] Map.empty ?w3 = (r, w2)"
    by (rule prod.exhaust)
  with ok obtain ses where r: "r = Inr ses" by (cases r) simp_all
  show ?thesis
    unfolding Ma2020_get_single_subject_data_def d
    by (simp only: prod.case sum.case l r fst_conv sum.disc simp_thms)
qed

text \<open>
  C10. Whenever \<open>Dataset4a._get_single_subject_data\<close> returns, the dictionary has the one key
  \<open>session_1\<close> and its value has exactly the keys \<open>train\<close> and \<open>test\<close>, while the dataset
  declares four sessions per subject. Whenever \<open>Ma2020._get_single_subject_data\<close> returns,
  the dictionary has the one key \<open>session_1\<close> and its value has exactly the nineteen keys
  \<open>run_1\<close> to \<open>run_19\<close>. Both do return for a valid subject when the files are in place.
\<close>

theorem session_and_run_keys:
  "(Dataset4a_get_single_subject_data ev Dataset4a_init subject w = (Inr out, w') \<longrightarrow>
      dom out = {''session_1''} \<and>
      (\<exists>ses. out ''session_1'' = Some ses \<and> dom ses = {''train'', ''test''})) \<and>
   n_sessions Dataset4a_init = 4 \<and>
   (Ma2020_get_single_subject_data ev Ma2020_init subject w = (Inr out2, w2) \<longrightarrow>
      dom out2 = {''session_1''} \<and>
      (\<exists>ses. out2 ''session_1'' = Some ses \<and>
         dom ses =
           {''run_1'', ''run_2'', ''run_3'', ''run_4'', ''run_5'', ''run_6'', ''run_7'', ''run_8'',
            ''run_9'', ''run_10'', ''run_11'', ''run_12'', ''run_13'', ''run_14'', ''run_15'',
            ''run_16'', ''run_17'', ''run_18'', ''run_19''}))"
proof (intro conjI impI)
  assume "Dataset4a_get_single_subject_data ev Dataset4a_init subject w = (Inr out, w')"
  then obtain train_data test_data where "assemble train_data test_data = Inr out"
    by (rule get_single_subject_data_assembled)
  from assemble_keys [OF this]
  show "dom out = {''session_1''}"
    and "\<exists>ses. out ''session_1'' = Some ses \<and> dom ses = {''train'', ''test''}"
    by simp_all
next
  show "n_sessions Dataset4a_init = 4"
    by (simp add: Dataset4a_init_def BaseDataset_init_def dataset.extend_def)
next
  assume a: "Ma2020_get_single_subject_data ev Ma2020_init subject w = (Inr out2, w2)"
  then obtain file_paths w1 ses where
    l: "load_runs ev file_paths [1..<20] Map.empty w1 = (Inr ses, w2)" and
    o: "out2 = [''session_1'' \<mapsto> ses]"
    by (auto simp: Ma2020_get_single_subject_data_def split: prod.splits sum.splits)
  from load_runs_keys [OF l] have "dom ses = (\<lambda>run. ''run_'' @ str_nat run) ` set [1..<20]"
    by simp
  then have d: "dom ses =
           {''run_1'', ''run_2'', ''run_3'', ''run_4'', ''run_5'', ''run_6'', ''run_7'', ''run_8'',
            ''run_9'', ''run_10'', ''run_11'', ''run_12'', ''run_13'', ''run_14'', ''run_15'',
            ''run_16'', ''run_17'', ''run_18'', ''run_19''}"
    unfolding run_names .
  from o show "dom out2 = {''session_1''}" by simp
  from o d show "\<exists>ses. out2 ''session_1'' = Some ses \<and>
         dom ses =
           {''run_1'', ''run_2'', ''run_3'', ''run_4'', ''run_5'', ''run_6'', ''run_7'', ''run_8'',
            ''run_9'', ''run_10'', ''run_11'', ''run_12'', ''run_13'', ''run_14'', ''run_15'',
            ''run_16'', ''run_17'', ''run_18'', ''run_19''}"
    by simp
qed

theorem session_and_run_keys_witness:
  "(let X = Dataset4a_get_single_subject_data
              (demo_env [] [100, 500, 900] [1, 2, 0] (demo_recording [])) Dataset4a_init 1 cached_world;
        Y = Ma2020_get_single_subject_data
              (demo_env [] [] [] (demo_recording [])) Ma2020_init 1 cached_world
    in \<not> isl (fst X) \<and> dom (projr (fst X)) = {''session_1''} \<and>
       (\<exists>ses. projr (fst X) ''session_1'' = Some ses \<and> dom ses = {''train'', ''test''}) \<and>
       \<not> isl (fst Y) \<and> dom (projr (fst Y)) = {''session_1''} \<and>
       (\<exists>ses. projr (fst Y) ''session_1'' = Some ses \<and>
         dom ses =
           {''run_1'', ''run_2'', ''run_3'', ''run_4'', ''run_5'', ''run_6'', ''run_7'', ''run_8'',
            ''run_9'', ''run_10'', ''run_11'', ''run_12'', ''run_13'', ''run_14'', ''run_15'',
            ''run_16'', ''run_17'', ''run_18'', ''run_19''}))"
proof -
  let ?E1 = "demo_env [] [100, 500, 900] [1, 2, 0] (demo_recording [])"
  let ?E2 = "demo_env [] [] [] (demo_recording [])"
  let ?X = "Dataset4a_get_single_subject_data ?E1 Dataset4a_init 1 cached_world"
  let ?Y = "Ma2020_get_single_subject_data ?E2 Ma2020_init 1 cached_world"
  have fx: "fst ?X = Inr (projr (fst ?X))"
    using demo_4a_runs by (rule sum.collapse(2) [symmetric])
  have x: "?X = (Inr (projr (fst ?X)), snd ?X)"
    by (subst fx [symmetric]) (rule prod.collapse [symmetric])
  have fy: "fst ?Y = Inr (projr (fst ?Y))"
    using demo_ma_runs by (rule sum.collapse(2) [symmetric])
  have y: "?Y = (Inr (projr (fst ?Y)), snd ?Y)"
    by (subst fy [symmetric]) (rule prod.collapse [symmetric])
  note t1 = session_and_run_keys
      [of ?E1 1 cached_world "projr (fst ?X)" "snd ?X" Map.empty cached_world,
       THEN conjunct1, THEN mp, OF x]
  note t2 = session_and_run_keys
      [of ?E2 1 cached_world Map.empty cached_world "projr (fst ?Y)" "snd ?Y",
       THEN conjunct2, THEN conjunct2, THEN mp, OF y]
  note a = t1 [THEN conjunct1] and b = t1 [THEN conjunct2]
    and c = t2 [THEN conjunct1] and d = t2 [THEN conjunct2]
  show ?thesis
    unfolding Let_def
    apply (rule conjI, rule demo_4a_runs)
    apply (rule conjI, rule a)
    apply (rule conjI, rule b)
    apply (rule conjI, rule demo_ma_runs)
    apply (rule conjI, rule c)
    apply (rule d)
    done
qed

end
